theory Spec2Isabelle
  imports Complex_Main
begin

section \<open>The waveform engine of modulation.py\<close>

text \<open>
  The class \<open>DigitalModulation\<close> is embedded as a record with one field per attribute and
  one HOL function per method. Conventions of the embedding:
  \<^item> Python floats are read as real numbers (\<open>1e6\<close> is \<open>1000000\<close>, \<open>8e-6\<close> is
    \<open>8 / 1000000\<close>), so rounding is not modelled; Python integers are \<open>int\<close>.
  \<^item> A one-dimensional NumPy array is a list, a reshaped array a list of rows.
  \<^item> An exception is the \<open>Inl\<close> branch of a sum.
  \<^item> \<open>packbits(...)[0]\<close> is a \<open>uint8\<close> scalar. Adding the Python integer \<open>1\<close> to it
    is read with NumPy's value-based promotion (the sum is a 64-bit integer, so
    \<open>255 + 1 = 256\<close>); only the all-ones symbol of eight bits would differ under a
    promotion that keeps \<open>uint8\<close>.
\<close>

datatype error = ZeroDivisionError | ValueError | IndexError

record digital_modulation =
  carrier_freq_hz :: real
  demo_duration_s :: real
  oversampling :: int
  sample_freq_hz :: real
  sample_period_s :: real
  start_phase_rad :: real
  sample_points_s :: "real list"

subsection \<open>NumPy primitives\<close>

text \<open>\<open>arange(start, stop, step)\<close>: \<open>ceil((stop - start) / step)\<close> points, none when that is
  not positive.\<close>

definition arange :: "real \<Rightarrow> real \<Rightarrow> real \<Rightarrow> real list" where
  "arange start stop step =
     map (\<lambda>k. start + real k * step) [0..<nat \<lceil>(stop - start) / step\<rceil>]"

text \<open>A slice bound of Python: a negative bound counts from the end, and every bound is
  clipped to the array.\<close>

definition slice_index :: "nat \<Rightarrow> int \<Rightarrow> nat" where
  "slice_index n i = (if i < 0 then nat (max 0 (i + int n)) else min (nat i) n)"

definition slice :: "'a list \<Rightarrow> int \<Rightarrow> int \<Rightarrow> 'a list" where
  "slice xs start stop =
     (let a = slice_index (length xs) start; b = slice_index (length xs) stop
      in take (b - a) (drop a xs))"

text \<open>\<open>xs[start:stop] = vs\<close> on an array: the array keeps its length, position \<open>a + j\<close> of the
  slice receives \<open>vs[j]\<close>. The modulators always assign values computed from the same slice
  of \<open>sample_points_s\<close>, an array of the same length, so the shapes agree (lemma
  \<open>length_slice\<close> below) and NumPy's shape check never fires.\<close>

definition slice_assign :: "'a list \<Rightarrow> int \<Rightarrow> int \<Rightarrow> 'a list \<Rightarrow> 'a list" where
  "slice_assign xs start stop vs =
     (let a = slice_index (length xs) start; b = slice_index (length xs) stop
      in map (\<lambda>i. if a \<le> i \<and> i < b then vs ! (i - a) else xs ! i) [0..<length xs])"

text \<open>\<open>reshape(xs, (-1, cols))\<close>: rows of \<open>cols\<close> entries. NumPy raises ValueError when
  \<open>cols\<close> is negative, when \<open>cols\<close> is zero (the unknown dimension cannot be inferred, or
  the size does not fit) and when the size is not a multiple of \<open>cols\<close>.\<close>

definition reshape2 :: "'a list \<Rightarrow> int \<Rightarrow> error + 'a list list" where
  "reshape2 xs cols =
     (if cols \<le> 0 then Inl ValueError
      else if int (length xs) mod cols \<noteq> 0 then Inl ValueError
      else Inr (map (\<lambda>r. take (nat cols) (drop (r * nat cols) xs))
                  [0..<length xs div nat cols]))"

text \<open>\<open>reshape(xs, (-1, 2, cols))\<close>: one \<open>2 \<times> cols\<close> block per symbol.\<close>

definition reshape3 :: "'a list \<Rightarrow> int \<Rightarrow> error + 'a list list list" where
  "reshape3 xs cols =
     (if cols \<le> 0 then Inl ValueError
      else if int (length xs) mod (2 * cols) \<noteq> 0 then Inl ValueError
      else Inr (map (\<lambda>r. [take (nat cols) (drop (r * (2 * nat cols)) xs),
                           take (nat cols) (drop (r * (2 * nat cols) + nat cols) xs)])
                  [0..<length xs div (2 * nat cols)]))"

text \<open>The value of a bit group, first bit least significant.\<close>

fun bits_le :: "bool list \<Rightarrow> nat" where
  "bits_le [] = 0"
| "bits_le (b # bs) = (if b then 1 else 0) + 2 * bits_le bs"

text \<open>\<open>packbits(bs, bitorder='little')\<close>: one byte per group of eight bits, the last group
  padded with zeros.\<close>

definition packbits_little :: "bool list \<Rightarrow> nat list" where
  "packbits_little bs =
     map (\<lambda>k. bits_le (take 8 (drop (8 * k) bs))) [0..<(length bs + 7) div 8]"

definition getitem0 :: "'a list \<Rightarrow> error + 'a" where
  "getitem0 xs = (case xs of [] \<Rightarrow> Inl IndexError | x # _ \<Rightarrow> Inr x)"

text \<open>\<open>int(x)\<close> truncates towards zero.\<close>

definition py_int :: "real \<Rightarrow> int" where
  "py_int x = (if 0 \<le> x then \<lfloor>x\<rfloor> else \<lceil>x\<rceil>)"

text \<open>\<open>for idx, data in enumerate(rows)\<close> with a body that may raise.\<close>

fun for_enumerate :: "(nat \<Rightarrow> 'a \<Rightarrow> 's \<Rightarrow> error + 's) \<Rightarrow> nat \<Rightarrow> 'a list \<Rightarrow> 's \<Rightarrow> error + 's" where
  "for_enumerate body idx [] s = Inr s"
| "for_enumerate body idx (x # xs) s =
     (case body idx x s of Inl e \<Rightarrow> Inl e | Inr s' \<Rightarrow> for_enumerate body (Suc idx) xs s')"

subsection \<open>The constructor and the carrier\<close>

text \<open>The constructor stores the literals \<open>1e6\<close> and \<open>8e-6\<close> in the two public fields and
  derives the sampling frequency, the sampling period and the sample points from its
  arguments. \<open>1 / sample_freq\<close> raises for a zero frequency.\<close>

definition init :: "real \<Rightarrow> real \<Rightarrow> error + digital_modulation" where
  "init carrier_freq_hz_arg demo_duration_s_arg =
     (let sample_freq = carrier_freq_hz_arg * 32
      in if sample_freq = 0 then Inl ZeroDivisionError
         else Inr \<lparr>carrier_freq_hz = 1000000,
                   demo_duration_s = 8 / 1000000,
                   oversampling = 32,
                   sample_freq_hz = sample_freq,
                   sample_period_s = 1 / sample_freq,
                   start_phase_rad = 0,
                   sample_points_s = arange 0 demo_duration_s_arg (1 / sample_freq)\<rparr>)"

definition get_carrier :: "digital_modulation \<Rightarrow> real list" where
  "get_carrier self =
     map (\<lambda>t. sin (2 * pi * carrier_freq_hz self * t)) (sample_points_s self)"

subsection \<open>Timing shared by the four modulators\<close>

text \<open>\<open>(self.carrier_freq_hz * self.demo_duration_s) // len(data_vec)\<close>: a float floor
  division, which raises for an empty \<open>data_vec\<close>.\<close>

definition periods_per_bit :: "digital_modulation \<Rightarrow> 'a list \<Rightarrow> error + real" where
  "periods_per_bit self data_vec =
     (if length data_vec = 0 then Inl ZeroDivisionError
      else Inr (of_int \<lfloor>carrier_freq_hz self * demo_duration_s self / real (length data_vec)\<rfloor>))"

definition mod_samples_per_bit :: "digital_modulation \<Rightarrow> real \<Rightarrow> int" where
  "mod_samples_per_bit self periods = py_int (periods * of_int (oversampling self))"

definition zeros_like :: "'b list \<Rightarrow> 'a::zero list" where
  "zeros_like xs = map (\<lambda>_. 0) xs"

definition astype_bool :: "int list \<Rightarrow> bool list" where
  "astype_bool data_vec = map (\<lambda>x. x \<noteq> 0) data_vec"

subsection \<open>ASK\<close>

definition ask_segment ::
  "digital_modulation \<Rightarrow> real \<Rightarrow> int \<Rightarrow> nat \<Rightarrow> bool list \<Rightarrow> real list \<Rightarrow> error + real list" where
  "ask_segment self amplitude_divider mod_samples idx data modulated_values_v =
     (case getitem0 (packbits_little data) of
        Inl e \<Rightarrow> Inl e
      | Inr modulated_value \<Rightarrow>
          (let amp_value = (real modulated_value + 1) / amplitude_divider;
               angular_frequency_hz = 2 * pi * carrier_freq_hz self;
               start_sample_idx = int idx * oversampling self;
               stop_sample_idx = start_sample_idx + mod_samples
           in Inr (slice_assign modulated_values_v start_sample_idx stop_sample_idx
                (map (\<lambda>t. amp_value * sin (angular_frequency_hz * t + start_phase_rad self))
                   (slice (sample_points_s self) start_sample_idx stop_sample_idx)))))"

text \<open>The loop of \<open>get_ask_mod\<close>, started on the zero waveform.\<close>

definition ask_loop ::
  "digital_modulation \<Rightarrow> real \<Rightarrow> int \<Rightarrow> bool list list \<Rightarrow> error + real list" where
  "ask_loop self amplitude_divider mod_samples ask_data_vec =
     for_enumerate (ask_segment self amplitude_divider mod_samples) 0 ask_data_vec
       (zeros_like (sample_points_s self))"

definition get_ask_mod :: "digital_modulation \<Rightarrow> int list \<Rightarrow> int \<Rightarrow> error + real list" where
  "get_ask_mod self data_vec bits_per_symbol_log2 =
     (case periods_per_bit self data_vec of
        Inl e \<Rightarrow> Inl e
      | Inr periods \<Rightarrow>
          (case reshape2 (astype_bool data_vec) bits_per_symbol_log2 of
             Inl e \<Rightarrow> Inl e
           | Inr ask_data_vec \<Rightarrow>
               ask_loop self (2 powi bits_per_symbol_log2) (mod_samples_per_bit self periods)
                 ask_data_vec))"

subsection \<open>PSK\<close>

definition psk_segment ::
  "digital_modulation \<Rightarrow> real \<Rightarrow> int \<Rightarrow> nat \<Rightarrow> bool list \<Rightarrow> real list \<Rightarrow> error + real list" where
  "psk_segment self phase_divider mod_samples idx data modulated_values_v =
     (case getitem0 (packbits_little data) of
        Inl e \<Rightarrow> Inl e
      | Inr packed \<Rightarrow>
          (let modulated_value = real packed + 1;
               angular_frequency_hz = 2 * pi * carrier_freq_hz self;
               phase_value_rad = start_phase_rad self + 2 * pi * modulated_value / phase_divider;
               start_sample_idx = int idx * oversampling self;
               stop_sample_idx = start_sample_idx + mod_samples
           in Inr (slice_assign modulated_values_v start_sample_idx stop_sample_idx
                (map (\<lambda>t. sin (angular_frequency_hz * t + phase_value_rad))
                   (slice (sample_points_s self) start_sample_idx stop_sample_idx)))))"

definition psk_loop ::
  "digital_modulation \<Rightarrow> real \<Rightarrow> int \<Rightarrow> bool list list \<Rightarrow> error + real list" where
  "psk_loop self phase_divider mod_samples ask_data_vec =
     for_enumerate (psk_segment self phase_divider mod_samples) 0 ask_data_vec
       (zeros_like (sample_points_s self))"

definition get_psk_mod :: "digital_modulation \<Rightarrow> int list \<Rightarrow> int \<Rightarrow> error + real list" where
  "get_psk_mod self data_vec bits_per_symbol_log2 =
     (case periods_per_bit self data_vec of
        Inl e \<Rightarrow> Inl e
      | Inr periods \<Rightarrow>
          (case reshape2 (astype_bool data_vec) bits_per_symbol_log2 of
             Inl e \<Rightarrow> Inl e
           | Inr ask_data_vec \<Rightarrow>
               psk_loop self (2 powi bits_per_symbol_log2) (mod_samples_per_bit self periods)
                 ask_data_vec))"

subsection \<open>FSK\<close>

definition fsk_freq_value_hz :: "real \<Rightarrow> real \<Rightarrow> real \<Rightarrow> nat \<Rightarrow> real" where
  "fsk_freq_value_hz frequency_min frequency_span freq_span_divider modulated_value =
     frequency_min + real modulated_value * frequency_span / freq_span_divider"

definition fsk_segment ::
  "digital_modulation \<Rightarrow> real \<Rightarrow> real \<Rightarrow> real \<Rightarrow> int \<Rightarrow> nat \<Rightarrow> bool list \<Rightarrow> real list
     \<Rightarrow> error + real list" where
  "fsk_segment self frequency_min frequency_span freq_span_divider mod_samples idx data
       modulated_values_v =
     (case getitem0 (packbits_little data) of
        Inl e \<Rightarrow> Inl e
      | Inr modulated_value \<Rightarrow>
          (let freq_value_hz =
                 fsk_freq_value_hz frequency_min frequency_span freq_span_divider modulated_value;
               start_sample_idx = int idx * oversampling self;
               stop_sample_idx = start_sample_idx + mod_samples;
               angular_frequency_hz = 2 * pi * freq_value_hz
           in Inr (slice_assign modulated_values_v start_sample_idx stop_sample_idx
                (map (\<lambda>t. sin (angular_frequency_hz * t + start_phase_rad self))
                   (slice (sample_points_s self) start_sample_idx stop_sample_idx)))))"

definition fsk_loop ::
  "digital_modulation \<Rightarrow> real \<Rightarrow> real \<Rightarrow> real \<Rightarrow> int \<Rightarrow> bool list list \<Rightarrow> error + real list" where
  "fsk_loop self frequency_min frequency_span freq_span_divider mod_samples fsk_data_vec =
     for_enumerate
       (fsk_segment self frequency_min frequency_span freq_span_divider mod_samples)
       0 fsk_data_vec (zeros_like (sample_points_s self))"

definition get_fsk_mod ::
  "digital_modulation \<Rightarrow> int list \<Rightarrow> real \<Rightarrow> int \<Rightarrow> error + real list" where
  "get_fsk_mod self data_vec frequency_span bits_per_symbol_log2 =
     (case periods_per_bit self data_vec of
        Inl e \<Rightarrow> Inl e
      | Inr periods \<Rightarrow>
          (case reshape2 (astype_bool data_vec) bits_per_symbol_log2 of
             Inl e \<Rightarrow> Inl e
           | Inr fsk_data_vec \<Rightarrow>
               fsk_loop self (carrier_freq_hz self - frequency_span / 2) frequency_span
                 (2 powi bits_per_symbol_log2 - 1) (mod_samples_per_bit self periods)
                 fsk_data_vec))"

subsection \<open>QAM\<close>

text \<open>The constellation lookup, branch by branch; \<open>(0, 0)\<close> is the initial \<open>ret_val\<close> that
  survives when no branch matches.\<close>

definition get_qam_modulation_mapping :: "int \<Rightarrow> int \<Rightarrow> int \<times> int" where
  "get_qam_modulation_mapping v qam_idx =
     (if qam_idx = 4 then
        (if v = 0 then (1, 1)
         else if v = 1 then (1, -1)
         else if v = 2 then (-1, 1)
         else if v = 3 then (-1, -1)
         else (0, 0))
      else if qam_idx = 8 then
        (if v = 0 then (3, 0)
         else if v = 1 then (1, 1)
         else if v = 2 then (-1, 1)
         else if v = 3 then (0, 3)
         else if v = 4 then (1, -1)
         else if v = 5 then (0, -3)
         else if v = 6 then (-3, 0)
         else if v = 7 then (-1, -1)
         else (0, 0))
      else if qam_idx = 16 then
        (if v = 0 then (1, 1)
         else if v = 1 then (3, 1)
         else if v = 2 then (1, 3)
         else if v = 3 then (3, 3)
         else if v = 4 then (1, -1)
         else if v = 5 then (3, -1)
         else if v = 6 then (1, -3)
         else if v = 7 then (3, -3)
         else if v = 8 then (-1, 1)
         else if v = 9 then (-3, 1)
         else if v = 10 then (-1, 3)
         else if v = 11 then (-3, 3)
         else if v = 12 then (-1, -1)
         else if v = 13 then (-3, -1)
         else if v = 14 then (-1, -3)
         else if v = 15 then (-3, -3)
         else (0, 0))
      else (0, 0))"

text \<open>\<open>packbits(data, bitorder='little')[0] + 1\<close> for a \<open>2 \<times> cols\<close> block: \<open>packbits\<close>
  without an axis packs the flattened block.\<close>

definition qam_modulated_value :: "bool list list \<Rightarrow> error + int" where
  "qam_modulated_value data =
     (case getitem0 (packbits_little (concat data)) of
        Inl e \<Rightarrow> Inl e
      | Inr packed \<Rightarrow> Inr (int packed + 1))"

definition qam_segment ::
  "digital_modulation \<Rightarrow> int \<Rightarrow> int \<Rightarrow> nat \<Rightarrow> bool list list \<Rightarrow> complex list
     \<Rightarrow> error + complex list" where
  "qam_segment self qam_idx mod_samples idx data modulated_values_v =
     (case qam_modulated_value data of
        Inl e \<Rightarrow> Inl e
      | Inr modulated_value \<Rightarrow>
          (let (i_val, q_val) = get_qam_modulation_mapping modulated_value qam_idx;
               angular_frequency_hz = 2 * pi * carrier_freq_hz self;
               start_sample_idx = int idx * oversampling self;
               stop_sample_idx = start_sample_idx + mod_samples
           in Inr (slice_assign modulated_values_v start_sample_idx stop_sample_idx
                (map (\<lambda>t. of_real (of_int i_val * cos (angular_frequency_hz * t))
                          + \<i> * of_real (of_int q_val * sin (angular_frequency_hz * t)))
                   (slice (sample_points_s self) start_sample_idx stop_sample_idx)))))"

definition qam_loop ::
  "digital_modulation \<Rightarrow> int \<Rightarrow> int \<Rightarrow> bool list list list \<Rightarrow> error + complex list" where
  "qam_loop self qam_idx mod_samples data_vec_qam =
     for_enumerate (qam_segment self qam_idx mod_samples) 0 data_vec_qam
       (zeros_like (sample_points_s self))"

definition get_qam_mod :: "digital_modulation \<Rightarrow> int list \<Rightarrow> int \<Rightarrow> error + complex list" where
  "get_qam_mod self data_vec bits_per_symbol_log2 =
     (case periods_per_bit self data_vec of
        Inl e \<Rightarrow> Inl e
      | Inr periods \<Rightarrow>
          (case reshape3 (astype_bool data_vec) (bits_per_symbol_log2 div 2) of
             Inl e \<Rightarrow> Inl e
           | Inr data_vec_qam \<Rightarrow>
               qam_loop self (2 ^ nat bits_per_symbol_log2) (mod_samples_per_bit self periods)
                 data_vec_qam))"

subsection \<open>The instance built with the default arguments\<close>

text \<open>\<open>DigitalModulation()\<close>: both arguments at their defaults \<open>1e6\<close> and \<open>8e-6\<close>.\<close>

definition default_instance :: digital_modulation where
  "default_instance =
     \<lparr>carrier_freq_hz = 1000000, demo_duration_s = 8 / 1000000, oversampling = 32,
      sample_freq_hz = 32000000, sample_period_s = 1 / 32000000, start_phase_rad = 0,
      sample_points_s = arange 0 (8 / 1000000) (1 / 32000000)\<rparr>"

subsection \<open>What one pass of a modulator's loop does to the waveform\<close>

text \<open>\<open>segment_of pts start n f w w'\<close>: the waveform \<open>w'\<close> is \<open>w\<close> with the samples
  \<open>start, ..., start + n - 1\<close> that exist overwritten by \<open>f\<close> at their sample instants, and
  every other sample left as it was.\<close>

definition segment_of ::
  "real list \<Rightarrow> nat \<Rightarrow> nat \<Rightarrow> (real \<Rightarrow> 'a) \<Rightarrow> 'a list \<Rightarrow> 'a list \<Rightarrow> bool" where
  "segment_of pts start n f w w' \<longleftrightarrow>
     length w' = length w \<and>
     (\<forall>i<length w. w' ! i = (if start \<le> i \<and> i < start + n then f (pts ! i) else w ! i))"

text \<open>
  \<open>last_writer stride n nsym i\<close>: the last of the symbols \<open>0, ..., nsym - 1\<close> whose
  segment \<open>k * stride, ..., k * stride + n - 1\<close> covers sample \<open>i\<close>. The loop writes the
  segments in order, so this symbol's values are the ones that remain at \<open>i\<close>.
\<close>

fun last_writer :: "nat \<Rightarrow> nat \<Rightarrow> nat \<Rightarrow> nat \<Rightarrow> nat option" where
  "last_writer stride n 0 i = None"
| "last_writer stride n (Suc m) i =
     (if m * stride \<le> i \<and> i < m * stride + n then Some m else last_writer stride n m i)"

section \<open>Basic facts\<close>

subsection \<open>Arrays and slices\<close>

lemma init_default: "init 1000000 (8 / 1000000) = Inr default_instance"
  by (simp add: init_def default_instance_def)

lemma length_arange: "length (arange a b s) = nat \<lceil>(b - a) / s\<rceil>"
  by (simp add: arange_def)

lemma length_default: "length (sample_points_s default_instance) = 256"
  by (simp add: default_instance_def length_arange)

lemma slice_index_le: "slice_index n i \<le> n"
  by (auto simp add: slice_index_def)

lemma length_slice:
  "length (slice xs start stop) = slice_index (length xs) stop - slice_index (length xs) start"
  by (simp add: slice_def Let_def slice_index_def)

lemma length_slice_assign [simp]: "length (slice_assign xs start stop vs) = length xs"
  by (simp add: slice_assign_def Let_def)

lemma nth_slice_assign:
  "i < length xs \<Longrightarrow>
   slice_assign xs start stop vs ! i =
     (if slice_index (length xs) start \<le> i \<and> i < slice_index (length xs) stop
      then vs ! (i - slice_index (length xs) start) else xs ! i)"
  by (simp add: slice_assign_def Let_def)

lemma nth_slice:
  "j < length (slice xs start stop) \<Longrightarrow>
   slice xs start stop ! j = xs ! (slice_index (length xs) start + j)"
  using slice_index_le [of "length xs" start] by (simp add: slice_def Let_def)

lemma segment_of_write:
  assumes len: "length w = length pts" and start: "0 \<le> start" and m: "0 \<le> m"
  shows "segment_of pts (nat start) (nat m) f w
           (slice_assign w start (start + m) (map f (slice pts start (start + m))))"
proof -
  let ?N = "length pts"
  let ?a = "slice_index ?N start" and ?b = "slice_index ?N (start + m)"
  have a: "?a = min (nat start) ?N" and b: "?b = min (nat start + nat m) ?N"
    using start m by (simp_all add: slice_index_def nat_add_distrib)
  have "slice_assign w start (start + m) (map f (slice pts start (start + m))) ! i =
        (if nat start \<le> i \<and> i < nat start + nat m then f (pts ! i) else w ! i)"
    if i: "i < length w" for i
  proof (cases "nat start \<le> i \<and> i < nat start + nat m")
    case True
    with i len a b have ab: "?a \<le> i" "i < ?b" and a': "?a = nat start" by simp_all
    then have j: "i - ?a < length (slice pts start (start + m))"
      by (simp add: length_slice)
    have "slice_assign w start (start + m) (map f (slice pts start (start + m))) ! i =
          map f (slice pts start (start + m)) ! (i - ?a)"
      using i len ab by (simp add: nth_slice_assign)
    also have "\<dots> = f (slice pts start (start + m) ! (i - ?a))"
      using j by simp
    also have "slice pts start (start + m) ! (i - ?a) = pts ! i"
      using j ab by (simp add: nth_slice)
    finally show ?thesis using True by simp
  next
    case False
    with i len a b have nab: "\<not> (?a \<le> i \<and> i < ?b)" by auto
    have "slice_assign w start (start + m) (map f (slice pts start (start + m))) ! i = w ! i"
      using i len nab by (auto simp add: nth_slice_assign)
    with False show ?thesis by auto
  qed
  then show ?thesis by (simp add: segment_of_def)
qed

subsection \<open>Bit groups\<close>

lemma getitem0_packbits:
  assumes "data \<noteq> []"
  shows "getitem0 (packbits_little data) = Inr (bits_le (take 8 data))"
proof -
  from assms have "0 < (length data + 7) div 8"
    by (cases data) simp_all
  then have "[0..<(length data + 7) div 8] = 0 # [Suc 0..<(length data + 7) div 8]"
    by (simp add: upt_conv_Cons)
  then show ?thesis
    by (simp add: packbits_little_def getitem0_def)
qed

lemma bits_le_less: "bits_le bs < 2 ^ length bs"
  by (induction bs) auto

lemma bits_le_all_False: "bits_le (replicate n False) = 0"
  by (induction n) auto

lemma bits_le_all_True: "bits_le (replicate n True) = 2 ^ n - 1"
proof (induction n)
  case 0
  show ?case by simp
next
  case (Suc n)
  have "(1::nat) \<le> 2 ^ n" by simp
  then have "Suc (2 * (2 ^ n - Suc 0)) = 2 * 2 ^ n - Suc 0" by arith
  with Suc show ?case by simp
qed

lemma reshape2_rows:
  assumes "reshape2 xs cols = Inr rows"
  shows "0 < cols" and "int (length xs) mod cols = 0"
    and "length rows = length xs div nat cols"
    and "\<And>r. r < length rows \<Longrightarrow> rows ! r = take (nat cols) (drop (r * nat cols) xs)"
    and "\<And>r. r < length rows \<Longrightarrow> length (rows ! r) = nat cols"
proof -
  from assms show pos: "0 < cols" and dv: "int (length xs) mod cols = 0"
    by (auto simp add: reshape2_def split: if_splits)
  from assms pos dv have rows:
    "rows = map (\<lambda>r. take (nat cols) (drop (r * nat cols) xs)) [0..<length xs div nat cols]"
    by (simp add: reshape2_def)
  then show len: "length rows = length xs div nat cols" by simp
  show nth: "rows ! r = take (nat cols) (drop (r * nat cols) xs)" if "r < length rows" for r
    using that rows by simp
  show "length (rows ! r) = nat cols" if r: "r < length rows" for r
  proof -
    from r len have "Suc r \<le> length xs div nat cols" by simp
    then have "Suc r * nat cols \<le> length xs div nat cols * nat cols"
      by (rule mult_le_mono1)
    also have "\<dots> \<le> length xs" by simp
    finally have "r * nat cols + nat cols \<le> length xs" by simp
    with nth [OF r] show ?thesis by simp
  qed
qed

lemma reshape2_rows_nonempty:
  "reshape2 xs cols = Inr rows \<Longrightarrow> x \<in> set rows \<Longrightarrow> x \<noteq> []"
  using reshape2_rows(1,5) [of xs cols rows] by (fastforce simp add: in_set_conv_nth)

lemma reshape2_ok:
  "0 < cols \<Longrightarrow> int (length xs) mod cols = 0 \<Longrightarrow> \<exists>rows. reshape2 xs cols = Inr rows"
  by (simp add: reshape2_def)

subsection \<open>The loop\<close>

lemma for_enumerate_append:
  "for_enumerate body i (xs @ ys) s =
     (case for_enumerate body i xs s of
        Inl e \<Rightarrow> Inl e
      | Inr s' \<Rightarrow> for_enumerate body (i + length xs) ys s')"
  by (induction xs arbitrary: i s) (auto split: sum.splits)

lemma for_enumerate_invariant:
  assumes "\<And>idx x s. x \<in> set xs \<Longrightarrow> P s \<Longrightarrow> \<exists>s'. body idx x s = Inr s' \<and> P s'"
    and "P s"
  shows "\<exists>s'. for_enumerate body i xs s = Inr s' \<and> P s'"
  using assms
proof (induction xs arbitrary: i s)
  case Nil
  then show ?case by simp
next
  case (Cons x xs)
  from Cons.prems obtain s1 where s1: "body i x s = Inr s1" "P s1"
    by (meson list.set_intros(1))
  have "\<exists>s'. for_enumerate body (Suc i) xs s1 = Inr s' \<and> P s'"
    by (rule Cons.IH) (use Cons.prems s1 in auto)
  with s1 show ?case by simp
qed

lemma for_enumerate_prefix_step:
  assumes k: "k < length rows"
    and body: "\<And>idx x s. x \<in> set rows \<Longrightarrow> P s \<Longrightarrow> \<exists>s'. body idx x s = Inr s' \<and> P s'"
    and s0: "P s0"
  shows "\<exists>w. for_enumerate body 0 (take k rows) s0 = Inr w \<and> P w \<and>
             for_enumerate body 0 (take (Suc k) rows) s0 = body k (rows ! k) w"
proof -
  have "\<exists>w. for_enumerate body 0 (take k rows) s0 = Inr w \<and> P w"
    by (rule for_enumerate_invariant [where P = P]) (use body s0 in \<open>auto dest: in_set_takeD\<close>)
  then obtain w where w: "for_enumerate body 0 (take k rows) s0 = Inr w" "P w" by blast
  from k have "take (Suc k) rows = take k rows @ [rows ! k]"
    by (rule take_Suc_conv_app_nth)
  then have "for_enumerate body 0 (take (Suc k) rows) s0 = body k (rows ! k) w"
    using w k by (simp add: for_enumerate_append split: sum.splits)
  with w show ?thesis by blast
qed

subsection \<open>The constructor and the loop bodies\<close>

lemma init_fields:
  assumes "init fc dur = Inr self"
  shows "carrier_freq_hz self = 1000000" and "demo_duration_s self = 8 / 1000000"
    and "oversampling self = 32" and "start_phase_rad self = 0"
    and "sample_freq_hz self = fc * 32" and "sample_period_s self = 1 / (fc * 32)"
    and "sample_points_s self = arange 0 dur (1 / (fc * 32))"
  using assms by (auto simp add: init_def Let_def split: if_splits)

lemma py_int_of_int: "py_int (of_int z) = z"
  by (simp add: py_int_def)

lemma periods_init:
  assumes "init fc dur = Inr self" and "data_vec \<noteq> []"
  shows "periods_per_bit self data_vec = Inr (of_int \<lfloor>8 / real (length data_vec)\<rfloor>)"
  using assms by (simp add: periods_per_bit_def init_fields)

lemma mod_samples_init:
  assumes "init fc dur = Inr self"
  shows "mod_samples_per_bit self (of_int c) = c * 32"
proof -
  have "mod_samples_per_bit self (of_int c) = py_int (of_int (c * 32))"
    using assms by (simp add: mod_samples_per_bit_def init_fields)
  then show ?thesis by (simp only: py_int_of_int)
qed

lemma ask_segment_eq:
  assumes "data \<noteq> []"
  shows "ask_segment self d m idx data w =
     Inr (slice_assign w (int idx * oversampling self) (int idx * oversampling self + m)
       (map (\<lambda>t. (real (bits_le (take 8 data)) + 1) / d *
                  sin (2 * pi * carrier_freq_hz self * t + start_phase_rad self))
          (slice (sample_points_s self) (int idx * oversampling self)
             (int idx * oversampling self + m))))"
  using assms by (simp add: ask_segment_def getitem0_packbits Let_def)

lemma psk_segment_eq:
  assumes "data \<noteq> []"
  shows "psk_segment self d m idx data w =
     Inr (slice_assign w (int idx * oversampling self) (int idx * oversampling self + m)
       (map (\<lambda>t. sin (2 * pi * carrier_freq_hz self * t +
                    (start_phase_rad self + 2 * pi * (real (bits_le (take 8 data)) + 1) / d)))
          (slice (sample_points_s self) (int idx * oversampling self)
             (int idx * oversampling self + m))))"
  using assms by (simp add: psk_segment_def getitem0_packbits Let_def)

lemma fsk_segment_eq:
  assumes "data \<noteq> []"
  shows "fsk_segment self fmin fspan d m idx data w =
     Inr (slice_assign w (int idx * oversampling self) (int idx * oversampling self + m)
       (map (\<lambda>t. sin (2 * pi * fsk_freq_value_hz fmin fspan d (bits_le (take 8 data)) * t +
                    start_phase_rad self))
          (slice (sample_points_s self) (int idx * oversampling self)
             (int idx * oversampling self + m))))"
  using assms by (simp add: fsk_segment_def getitem0_packbits Let_def)

lemma qam_modulated_value_eq:
  assumes "concat data \<noteq> []"
  shows "qam_modulated_value data = Inr (int (bits_le (take 8 (concat data))) + 1)"
  using assms by (simp add: qam_modulated_value_def getitem0_packbits)

lemma qam_segment_eq:
  assumes "concat data \<noteq> []"
  shows "qam_segment self q m idx data w =
     Inr (slice_assign w (int idx * oversampling self) (int idx * oversampling self + m)
       (map (\<lambda>t. of_real (of_int (fst (get_qam_modulation_mapping
                                (int (bits_le (take 8 (concat data))) + 1) q)) *
                            cos (2 * pi * carrier_freq_hz self * t)) +
                  \<i> * of_real (of_int (snd (get_qam_modulation_mapping
                                (int (bits_le (take 8 (concat data))) + 1) q)) *
                            sin (2 * pi * carrier_freq_hz self * t)))
          (slice (sample_points_s self) (int idx * oversampling self)
             (int idx * oversampling self + m))))"
  using assms by (simp add: qam_segment_def qam_modulated_value_eq Let_def split_beta)

subsection \<open>Loops that run to the end, and what one pass writes\<close>

lemma powi_nat: "0 \<le> B \<Longrightarrow> (2::real) powi B = 2 ^ nat B"
  by (simp add: power_int_def)

lemma take8_short: "length data \<le> 8 \<Longrightarrow> take 8 data = data"
  by simp

lemma reshape3_rows:
  assumes "reshape3 xs cols = Inr blocks"
  shows "0 < cols" and "int (length xs) mod (2 * cols) = 0"
    and "length blocks = length xs div (2 * nat cols)"
    and "\<And>r. r < length blocks \<Longrightarrow>
           concat (blocks ! r) = take (2 * nat cols) (drop (r * (2 * nat cols)) xs)"
    and "\<And>r. r < length blocks \<Longrightarrow> length (concat (blocks ! r)) = 2 * nat cols"
proof -
  from assms show pos: "0 < cols" and dv: "int (length xs) mod (2 * cols) = 0"
    by (auto simp add: reshape3_def split: if_splits)
  from assms pos dv have blocks:
    "blocks = map (\<lambda>r. [take (nat cols) (drop (r * (2 * nat cols)) xs),
                         take (nat cols) (drop (r * (2 * nat cols) + nat cols) xs)])
                [0..<length xs div (2 * nat cols)]"
    by (simp add: reshape3_def)
  then show len: "length blocks = length xs div (2 * nat cols)" by simp
  show cc: "concat (blocks ! r) = take (2 * nat cols) (drop (r * (2 * nat cols)) xs)"
    if "r < length blocks" for r
  proof -
    have "take (nat cols + nat cols) (drop (r * (2 * nat cols)) xs) =
          take (nat cols) (drop (r * (2 * nat cols)) xs) @
          take (nat cols) (drop (nat cols) (drop (r * (2 * nat cols)) xs))"
      by (rule take_add)
    then show ?thesis using that blocks by (simp add: mult_2 add.commute)
  qed
  show "length (concat (blocks ! r)) = 2 * nat cols" if r: "r < length blocks" for r
  proof -
    from r len have "Suc r \<le> length xs div (2 * nat cols)" by simp
    then have "Suc r * (2 * nat cols) \<le> length xs div (2 * nat cols) * (2 * nat cols)"
      by (rule mult_le_mono1)
    also have "\<dots> \<le> length xs" by simp
    finally have "r * (2 * nat cols) + 2 * nat cols \<le> length xs" by simp
    with cc [OF r] show ?thesis by simp
  qed
qed

lemma reshape3_blocks_nonempty:
  assumes "reshape3 xs cols = Inr blocks" and "x \<in> set blocks"
  shows "concat x \<noteq> []"
proof -
  from assms(2) obtain r where r: "r < length blocks" and x: "x = blocks ! r"
    by (auto simp add: in_set_conv_nth)
  from assms(1) r have "length (concat (blocks ! r)) = 2 * nat cols"
    by (rule reshape3_rows(5))
  moreover from assms(1) have "0 < cols" by (rule reshape3_rows(1))
  ultimately have "0 < length (concat x)" using x by simp
  then show ?thesis by (metis length_greater_0_conv)
qed

lemma reshape3_ok:
  "0 < cols \<Longrightarrow> int (length xs) mod (2 * cols) = 0 \<Longrightarrow> \<exists>blocks. reshape3 xs cols = Inr blocks"
  by (simp add: reshape3_def)

lemma length_zeros_like [simp]: "length (zeros_like xs) = length xs"
  by (simp add: zeros_like_def)

lemma ask_loop_length:
  assumes "\<And>x. x \<in> set rows \<Longrightarrow> x \<noteq> []"
  shows "\<exists>w. ask_loop self d m rows = Inr w \<and> length w = length (sample_points_s self)"
  unfolding ask_loop_def
  by (rule for_enumerate_invariant) (simp_all add: ask_segment_eq assms)

lemma psk_loop_length:
  assumes "\<And>x. x \<in> set rows \<Longrightarrow> x \<noteq> []"
  shows "\<exists>w. psk_loop self d m rows = Inr w \<and> length w = length (sample_points_s self)"
  unfolding psk_loop_def
  by (rule for_enumerate_invariant) (simp_all add: psk_segment_eq assms)

lemma fsk_loop_length:
  assumes "\<And>x. x \<in> set rows \<Longrightarrow> x \<noteq> []"
  shows "\<exists>w. fsk_loop self fmin fspan d m rows = Inr w \<and>
             length w = length (sample_points_s self)"
  unfolding fsk_loop_def
  by (rule for_enumerate_invariant) (simp_all add: fsk_segment_eq assms)

lemma qam_loop_length:
  assumes "\<And>x. x \<in> set blocks \<Longrightarrow> concat x \<noteq> []"
  shows "\<exists>w. qam_loop self q m blocks = Inr w \<and> length w = length (sample_points_s self)"
  unfolding qam_loop_def
proof (rule for_enumerate_invariant)
  fix idx x and s :: "complex list"
  assume "x \<in> set blocks" and "length s = length (sample_points_s self)"
  then show "\<exists>s'. qam_segment self q m idx x s = Inr s' \<and>
      length s' = length (sample_points_s self)"
    using qam_segment_eq [OF assms, of x self q m idx s] by simp
qed simp

lemma periods_ok:
  "data_vec \<noteq> [] \<Longrightarrow> \<exists>p. periods_per_bit self data_vec = Inr p"
  by (simp add: periods_per_bit_def)

lemma reshape2_demo:
  "reshape2 (astype_bool [0, 1, 1, 0]) 2 = Inr [[False, True], [True, False]]"
  by (simp add: reshape2_def astype_bool_def)

lemma write_segment_of:
  assumes "length w = length pts" and "0 \<le> os" and "0 \<le> m"
  shows "segment_of pts (idx * nat os) (nat m) f w
           (slice_assign w (int idx * os) (int idx * os + m)
              (map f (slice pts (int idx * os) (int idx * os + m))))"
proof -
  from assms(2) have "nat (int idx * os) = idx * nat os"
    by (simp add: nat_mult_distrib)
  moreover from assms(2) have "0 \<le> int idx * os" by simp
  ultimately show ?thesis
    using segment_of_write [of w pts "int idx * os" m f] assms(1,3) by simp
qed

lemma segment_of_length: "segment_of pts start n f w w' \<Longrightarrow> length w' = length w"
  by (simp add: segment_of_def)

lemma loop_pass_segment:
  assumes k: "k < length rows"
    and body: "\<And>idx x w. x \<in> set rows \<Longrightarrow> length w = length pts \<Longrightarrow>
        \<exists>w'. body idx x w = Inr w' \<and> segment_of pts (idx * n0) n (f x) w w'"
    and z: "length z = length pts"
  shows "\<exists>w w'. for_enumerate body 0 (take k rows) z = Inr w \<and>
                 for_enumerate body 0 (take (Suc k) rows) z = Inr w' \<and>
                 segment_of pts (k * n0) n (f (rows ! k)) w w'"
proof -
  have step: "\<exists>s'. body idx x s = Inr s' \<and> length s' = length pts"
    if "x \<in> set rows" and "length s = length pts" for idx x s
    using body [OF that, of idx] that(2) by (auto dest: segment_of_length)
  have "\<exists>w. for_enumerate body 0 (take k rows) z = Inr w \<and> length w = length pts \<and>
      for_enumerate body 0 (take (Suc k) rows) z = body k (rows ! k) w"
  proof (rule for_enumerate_prefix_step [where P = "\<lambda>w. length w = length pts", OF k])
    fix idx x and s :: "'b list"
    assume "x \<in> set rows" and "length s = length pts"
    then show "\<exists>s'. body idx x s = Inr s' \<and> length s' = length pts" by (rule step)
  next
    show "length z = length pts" by (rule z)
  qed
  then obtain w where w: "for_enumerate body 0 (take k rows) z = Inr w" "length w = length pts"
    and nxt: "for_enumerate body 0 (take (Suc k) rows) z = body k (rows ! k) w"
    by blast
  from k have "rows ! k \<in> set rows" by simp
  from body [OF this w(2)] obtain w' where
    "body k (rows ! k) w = Inr w'" "segment_of pts (k * n0) n (f (rows ! k)) w w'"
    by blast
  with w nxt show ?thesis by auto
qed

lemma ask_pass:
  assumes os: "0 \<le> oversampling self" and m: "0 \<le> m"
    and rows: "\<And>x. x \<in> set rows \<Longrightarrow> x \<noteq> []" and k: "k < length rows"
  shows "\<exists>w w'. ask_loop self d m (take k rows) = Inr w \<and>
                 ask_loop self d m (take (Suc k) rows) = Inr w' \<and>
                 segment_of (sample_points_s self) (k * nat (oversampling self)) (nat m)
                   (\<lambda>t. (real (bits_le (take 8 (rows ! k))) + 1) / d *
                        sin (2 * pi * carrier_freq_hz self * t + start_phase_rad self)) w w'"
  unfolding ask_loop_def
  by (rule loop_pass_segment [where f = "\<lambda>x t. (real (bits_le (take 8 x)) + 1) / d *
          sin (2 * pi * carrier_freq_hz self * t + start_phase_rad self)", OF k])
    (simp_all add: ask_segment_eq rows write_segment_of os m)

lemma psk_pass:
  assumes os: "0 \<le> oversampling self" and m: "0 \<le> m"
    and rows: "\<And>x. x \<in> set rows \<Longrightarrow> x \<noteq> []" and k: "k < length rows"
  shows "\<exists>w w'. psk_loop self d m (take k rows) = Inr w \<and>
                 psk_loop self d m (take (Suc k) rows) = Inr w' \<and>
                 segment_of (sample_points_s self) (k * nat (oversampling self)) (nat m)
                   (\<lambda>t. sin (2 * pi * carrier_freq_hz self * t +
                      (start_phase_rad self +
                       2 * pi * (real (bits_le (take 8 (rows ! k))) + 1) / d))) w w'"
  unfolding psk_loop_def
  by (rule loop_pass_segment [where f = "\<lambda>x t. sin (2 * pi * carrier_freq_hz self * t +
          (start_phase_rad self + 2 * pi * (real (bits_le (take 8 x)) + 1) / d))", OF k])
    (simp_all add: psk_segment_eq rows write_segment_of os m)

lemma fsk_pass:
  assumes os: "0 \<le> oversampling self" and m: "0 \<le> m"
    and rows: "\<And>x. x \<in> set rows \<Longrightarrow> x \<noteq> []" and k: "k < length rows"
  shows "\<exists>w w'. fsk_loop self fmin fspan d m (take k rows) = Inr w \<and>
                 fsk_loop self fmin fspan d m (take (Suc k) rows) = Inr w' \<and>
                 segment_of (sample_points_s self) (k * nat (oversampling self)) (nat m)
                   (\<lambda>t. sin (2 * pi *
                        fsk_freq_value_hz fmin fspan d (bits_le (take 8 (rows ! k))) * t +
                      start_phase_rad self)) w w'"
  unfolding fsk_loop_def
  by (rule loop_pass_segment [where f = "\<lambda>x t. sin (2 * pi *
          fsk_freq_value_hz fmin fspan d (bits_le (take 8 x)) * t + start_phase_rad self)", OF k])
    (simp_all add: fsk_segment_eq rows write_segment_of os m)

lemma qam_pass:
  assumes os: "0 \<le> oversampling self" and m: "0 \<le> m"
    and blocks: "\<And>x. x \<in> set blocks \<Longrightarrow> concat x \<noteq> []" and k: "k < length blocks"
  shows "\<exists>w w'. qam_loop self q m (take k blocks) = Inr w \<and>
                 qam_loop self q m (take (Suc k) blocks) = Inr w' \<and>
                 segment_of (sample_points_s self) (k * nat (oversampling self)) (nat m)
                   (\<lambda>t. of_real (of_int (fst (get_qam_modulation_mapping
                                  (int (bits_le (take 8 (concat (blocks ! k)))) + 1) q)) *
                              cos (2 * pi * carrier_freq_hz self * t)) +
                        \<i> * of_real (of_int (snd (get_qam_modulation_mapping
                                  (int (bits_le (take 8 (concat (blocks ! k)))) + 1) q)) *
                              sin (2 * pi * carrier_freq_hz self * t))) w w'"
  unfolding qam_loop_def
proof (rule loop_pass_segment [where f = "\<lambda>x t.
          of_real (of_int (fst (get_qam_modulation_mapping
                                  (int (bits_le (take 8 (concat x))) + 1) q)) *
                              cos (2 * pi * carrier_freq_hz self * t)) +
                        \<i> * of_real (of_int (snd (get_qam_modulation_mapping
                                  (int (bits_le (take 8 (concat x))) + 1) q)) *
                              sin (2 * pi * carrier_freq_hz self * t))", OF k])
  fix idx x and w :: "complex list"
  assume x: "x \<in> set blocks" and w: "length w = length (sample_points_s self)"
  show "\<exists>w'. qam_segment self q m idx x w = Inr w' \<and>
      segment_of (sample_points_s self) (idx * nat (oversampling self)) (nat m)
        (\<lambda>t. of_real (of_int (fst (get_qam_modulation_mapping
                                  (int (bits_le (take 8 (concat x))) + 1) q)) *
                              cos (2 * pi * carrier_freq_hz self * t)) +
                        \<i> * of_real (of_int (snd (get_qam_modulation_mapping
                                  (int (bits_le (take 8 (concat x))) + 1) q)) *
                              sin (2 * pi * carrier_freq_hz self * t))) w w'"
    using qam_segment_eq [OF blocks [OF x], of self q m idx w] write_segment_of [OF w os m]
    by simp
qed simp

lemma card_segment_range:
  assumes "start + n \<le> N"
  shows "card {i. i < N \<and> start \<le> i \<and> i < start + n} = n"
proof -
  from assms have "{i. i < N \<and> start \<le> i \<and> i < start + n} = {start..<start + n}"
    by auto
  then show ?thesis by simp
qed

subsection \<open>Calls that return, and two calls evaluated\<close>

lemma default_fields:
  "carrier_freq_hz default_instance = 1000000"
  "demo_duration_s default_instance = 8 / 1000000"
  "oversampling default_instance = 32"
  "start_phase_rad default_instance = 0"
  by (simp_all add: default_instance_def)


lemma get_ask_mod_returns:
  assumes "data_vec \<noteq> []" and "0 < B" and "int (length data_vec) mod B = 0"
  shows "\<exists>w. get_ask_mod self data_vec B = Inr w \<and> length w = length (sample_points_s self)"
proof -
  from assms(1) obtain p where p: "periods_per_bit self data_vec = Inr p"
    using periods_ok by blast
  from assms(2,3) obtain rows where rows: "reshape2 (astype_bool data_vec) B = Inr rows"
    using reshape2_ok [of B "astype_bool data_vec"] by (auto simp add: astype_bool_def)
  have rne: "x \<noteq> []" if "x \<in> set rows" for x
    using rows that by (rule reshape2_rows_nonempty)
  have "\<exists>w. ask_loop self (2 powi B) (mod_samples_per_bit self p) rows = Inr w \<and>
      length w = length (sample_points_s self)"
    by (rule ask_loop_length) (rule rne)
  then show ?thesis using p rows by (simp add: get_ask_mod_def)
qed

lemma get_psk_mod_returns:
  assumes "data_vec \<noteq> []" and "0 < B" and "int (length data_vec) mod B = 0"
  shows "\<exists>w. get_psk_mod self data_vec B = Inr w \<and> length w = length (sample_points_s self)"
proof -
  from assms(1) obtain p where p: "periods_per_bit self data_vec = Inr p"
    using periods_ok by blast
  from assms(2,3) obtain rows where rows: "reshape2 (astype_bool data_vec) B = Inr rows"
    using reshape2_ok [of B "astype_bool data_vec"] by (auto simp add: astype_bool_def)
  have rne: "x \<noteq> []" if "x \<in> set rows" for x
    using rows that by (rule reshape2_rows_nonempty)
  have "\<exists>w. psk_loop self (2 powi B) (mod_samples_per_bit self p) rows = Inr w \<and>
      length w = length (sample_points_s self)"
    by (rule psk_loop_length) (rule rne)
  then show ?thesis using p rows by (simp add: get_psk_mod_def)
qed




lemma reshape3_demo4:
  "reshape3 (astype_bool [0, 1, 1, 0]) (2 div 2) = Inr [[[False], [True]], [[True], [False]]]"
  by (simp add: reshape3_def astype_bool_def)

subsection \<open>The waveform a loop leaves, and segments that fit\<close>

lemma last_writer_less: "last_writer stride n m i = Some k \<Longrightarrow> k < m"
  by (induction m) (auto split: if_splits)

lemma loop_result:
  assumes body: "\<And>idx x w. x \<in> set rows \<Longrightarrow> length w = length pts \<Longrightarrow>
        \<exists>w'. body idx x w = Inr w' \<and> segment_of pts (idx * n0) n (f x) w w'"
    and z: "length z = length pts"
  shows "\<exists>w. for_enumerate body 0 rows z = Inr w \<and> length w = length pts \<and>
      (\<forall>i<length pts.
         w ! i = (case last_writer n0 n (length rows) i of
                    None \<Rightarrow> z ! i
                  | Some k \<Rightarrow> f (rows ! k) (pts ! i)))"
  using body
proof (induction rows rule: rev_induct)
  case Nil
  with z show ?case by simp
next
  case (snoc x xs)
  have "\<exists>w. for_enumerate body 0 xs z = Inr w \<and> length w = length pts \<and>
      (\<forall>i<length pts.
         w ! i = (case last_writer n0 n (length xs) i of
                    None \<Rightarrow> z ! i
                  | Some k \<Rightarrow> f (xs ! k) (pts ! i)))"
    by (rule snoc.IH) (rule snoc.prems, simp_all)
  then obtain w where run: "for_enumerate body 0 xs z = Inr w" and lw: "length w = length pts"
    and val: "\<And>i. i < length pts \<Longrightarrow>
         w ! i = (case last_writer n0 n (length xs) i of
                    None \<Rightarrow> z ! i
                  | Some k \<Rightarrow> f (xs ! k) (pts ! i))"
    by blast
  have "x \<in> set (xs @ [x])" by simp
  from snoc.prems [OF this lw, of "length xs"] obtain w' where
    b: "body (length xs) x w = Inr w'" and seg: "segment_of pts (length xs * n0) n (f x) w w'"
    by blast
  have run': "for_enumerate body 0 (xs @ [x]) z = Inr w'"
    using run b by (simp add: for_enumerate_append)
  from seg lw have lw': "length w' = length pts" by (simp add: segment_of_def)
  have "w' ! i = (case last_writer n0 n (length (xs @ [x])) i of
                    None \<Rightarrow> z ! i
                  | Some k \<Rightarrow> f ((xs @ [x]) ! k) (pts ! i))"
    if i: "i < length pts" for i
  proof (cases "length xs * n0 \<le> i \<and> i < length xs * n0 + n")
    case True
    with seg i lw have "w' ! i = f x (pts ! i)" by (simp add: segment_of_def)
    with True show ?thesis by simp
  next
    case False
    with seg i lw have "w' ! i = w ! i" by (auto simp add: segment_of_def)
    also note val [OF i]
    finally show ?thesis
      using False by (auto split: option.splits dest: last_writer_less simp add: nth_append)
  qed
  with run' lw' show ?case by blast
qed

lemma length_astype_bool: "length (astype_bool xs) = length xs"
  by (simp add: astype_bool_def)


lemma fsk_loop_result:
  assumes os: "0 \<le> oversampling self" and m: "0 \<le> m"
    and rows: "\<And>x. x \<in> set rows \<Longrightarrow> x \<noteq> []"
  shows "\<exists>w. fsk_loop self fmin fspan d m rows = Inr w \<and>
      length w = length (sample_points_s self) \<and>
      (\<forall>i<length (sample_points_s self).
         w ! i = (case last_writer (nat (oversampling self)) (nat m) (length rows) i of
                    None \<Rightarrow> 0
                  | Some k \<Rightarrow>
                      sin (2 * pi * fsk_freq_value_hz fmin fspan d (bits_le (take 8 (rows ! k))) *
                          (sample_points_s self ! i) + start_phase_rad self)))"
proof -
  let ?pts = "sample_points_s self"
  have "\<exists>w. for_enumerate (fsk_segment self fmin fspan d m) 0 rows (zeros_like ?pts) = Inr w \<and>
      length w = length ?pts \<and>
      (\<forall>i<length ?pts.
         w ! i = (case last_writer (nat (oversampling self)) (nat m) (length rows) i of
                    None \<Rightarrow> (zeros_like ?pts :: real list) ! i
                  | Some k \<Rightarrow> (\<lambda>x t. sin (2 * pi *
                        fsk_freq_value_hz fmin fspan d (bits_le (take 8 x)) * t +
                        start_phase_rad self))
                      (rows ! k) (?pts ! i)))"
    by (rule loop_result) (simp_all add: fsk_segment_eq rows write_segment_of os m)
  then show ?thesis
    by (simp add: fsk_loop_def zeros_like_def cong: option.case_cong)
qed

lemma call_setup:
  assumes os: "0 \<le> oversampling self"
    and P: "0 \<le> carrier_freq_hz self * demo_duration_s self"
    and ne: "data_vec \<noteq> []" and B1: "1 \<le> B" and dv: "int (length data_vec) mod B = 0"
  shows "\<exists>rows.
      periods_per_bit self data_vec =
        Inr (of_int \<lfloor>carrier_freq_hz self * demo_duration_s self / real (length data_vec)\<rfloor>) \<and>
      mod_samples_per_bit self
        (of_int \<lfloor>carrier_freq_hz self * demo_duration_s self / real (length data_vec)\<rfloor>) =
        \<lfloor>carrier_freq_hz self * demo_duration_s self / real (length data_vec)\<rfloor> *
          oversampling self \<and>
      0 \<le> \<lfloor>carrier_freq_hz self * demo_duration_s self / real (length data_vec)\<rfloor> *
          oversampling self \<and>
      nat (\<lfloor>carrier_freq_hz self * demo_duration_s self / real (length data_vec)\<rfloor> *
          oversampling self) =
        nat \<lfloor>carrier_freq_hz self * demo_duration_s self / real (length data_vec)\<rfloor> *
          nat (oversampling self) \<and>
      reshape2 (astype_bool data_vec) B = Inr rows \<and>
      length rows = length data_vec div nat B \<and>
      (\<forall>x\<in>set rows. x \<noteq> []) \<and>
      (\<forall>k<length rows. rows ! k = take (nat B) (drop (k * nat B) (astype_bool data_vec)) \<and>
         length (rows ! k) = nat B)"
proof -
  let ?c = "\<lfloor>carrier_freq_hz self * demo_duration_s self / real (length data_vec)\<rfloor>"
  from ne have p: "periods_per_bit self data_vec = Inr (of_int ?c)"
    by (simp add: periods_per_bit_def)
  have "mod_samples_per_bit self (of_int ?c) = py_int (of_int (?c * oversampling self))"
    by (simp add: mod_samples_per_bit_def)
  then have ms: "mod_samples_per_bit self (of_int ?c) = ?c * oversampling self"
    by (simp only: py_int_of_int)
  from P have c0: "0 \<le> ?c" by simp
  with os have m0: "0 \<le> ?c * oversampling self" by simp
  from c0 have nm: "nat (?c * oversampling self) = nat ?c * nat (oversampling self)"
    by (rule nat_mult_distrib)
  from B1 dv obtain rows where rows: "reshape2 (astype_bool data_vec) B = Inr rows"
    using reshape2_ok [of B "astype_bool data_vec"] by (auto simp add: length_astype_bool)
  have l: "length rows = length data_vec div nat B"
    using reshape2_rows(3) [OF rows] by (simp add: length_astype_bool)
  have rne: "\<forall>x\<in>set rows. x \<noteq> []"
    using reshape2_rows_nonempty [OF rows] by blast
  have nth: "\<forall>k<length rows. rows ! k = take (nat B) (drop (k * nat B) (astype_bool data_vec)) \<and>
         length (rows ! k) = nat B"
    using reshape2_rows(4,5) [OF rows] by blast
  from p ms m0 nm rows l rne nth show ?thesis by blast
qed

lemma consistent_segment_fits:
  fixes fc dur :: real and os c :: int
  assumes fc: "0 < fc" and dur: "0 < dur" and os: "1 \<le> os"
    and n: "0 < n" and k: "k < n"
    and c: "c = \<lfloor>fc * dur / real n\<rfloor>"
    and N: "N = nat \<lceil>dur / (1 / (fc * of_int os))\<rceil>"
  shows "card {i. i < N \<and> k * nat os \<le> i \<and> i < k * nat os + nat c * nat os} = nat c * nat os"
proof (cases "c \<le> 0")
  case True
  then have "nat c = 0" by simp
  then show ?thesis by simp
next
  case False
  let ?P = "fc * dur"
  from False have c1: "1 \<le> real_of_int c" by simp
  have cq: "real_of_int c \<le> ?P / real n" unfolding c by (rule of_int_floor_le)
  from n have n1: "1 \<le> real n" by simp
  from k have kn: "real k \<le> real n - 1" by simp
  from c1 cq have q1: "1 \<le> ?P / real n" by simp
  have aux: "m - 1 + q \<le> q * m" if "1 \<le> q" and "1 \<le> m" for q m :: real
  proof -
    from that have "0 \<le> (q - 1) * (m - 1)" by (intro mult_nonneg_nonneg) simp_all
    then show ?thesis by (simp add: algebra_simps)
  qed
  from aux [OF q1 n1] have "real n - 1 + ?P / real n \<le> ?P / real n * real n" .
  also have "?P / real n * real n = ?P" using n1 by simp
  finally have "real n - 1 + ?P / real n \<le> ?P" .
  with kn cq have kc: "real k + real_of_int c \<le> ?P" by simp
  from os have os0: "0 \<le> real_of_int os" by simp
  have "(real k + real_of_int c) * real_of_int os \<le> ?P * real_of_int os"
    using kc os0 by (rule mult_right_mono)
  also have "?P * real_of_int os = dur / (1 / (fc * of_int os))" by simp
  finally have le: "(real k + real_of_int c) * real_of_int os \<le> dur / (1 / (fc * of_int os))" .
  have "real_of_int ((int k + c) * os) = (real k + real_of_int c) * real_of_int os" by simp
  with le have "real_of_int ((int k + c) * os) \<le> dur / (1 / (fc * of_int os))" by simp
  then have "\<lceil>real_of_int ((int k + c) * os)\<rceil> \<le> \<lceil>dur / (1 / (fc * of_int os))\<rceil>"
    by (rule ceiling_mono)
  then have "(int k + c) * os \<le> \<lceil>dur / (1 / (fc * of_int os))\<rceil>"
    by (simp only: ceiling_of_int)
  then have "nat ((int k + c) * os) \<le> N" unfolding N by (rule nat_mono)
  moreover from False os have "nat ((int k + c) * os) = k * nat os + nat c * nat os"
    by (simp add: nat_mult_distrib nat_add_distrib add_mult_distrib)
  ultimately have "k * nat os + nat c * nat os \<le> N" by simp
  then show ?thesis by (rule card_segment_range)
qed

lemma default_consistent:
  "0 < carrier_freq_hz default_instance" "0 < demo_duration_s default_instance"
  "1 \<le> oversampling default_instance"
  "sample_freq_hz default_instance =
     carrier_freq_hz default_instance * of_int (oversampling default_instance)"
  "sample_period_s default_instance = 1 / sample_freq_hz default_instance"
  "sample_points_s default_instance =
     arange 0 (demo_duration_s default_instance) (sample_period_s default_instance)"
  by (simp_all add: default_instance_def)

lemma default_call_facts:
  "0 \<le> oversampling default_instance"
  "0 \<le> carrier_freq_hz default_instance * demo_duration_s default_instance"
  "[0, 1, 1, 0::int] \<noteq> []" "(1::int) \<le> 2" "(2::int) \<le> 8"
  "int (length [0, 1, 1, 0::int]) mod 2 = 0"
  by (simp_all add: default_fields)

lemma default_last_writer_args:
  "nat (oversampling default_instance) = 32"
  "nat \<lfloor>carrier_freq_hz default_instance * demo_duration_s default_instance /
          real (length [0, 1, 1, 0::int])\<rfloor> = 2"
  "length [0, 1, 1, 0::int] div nat 2 = 2"
  by (simp_all add: default_fields)

lemma default_last_writer:
  "last_writer (nat (oversampling default_instance))
            (nat \<lfloor>carrier_freq_hz default_instance * demo_duration_s default_instance /
                   real (length [0, 1, 1, 0::int])\<rfloor> *
               nat (oversampling default_instance))
            (length [0, 1, 1, 0::int] div nat 2) 100 = None"
  "last_writer (nat (oversampling default_instance))
            (nat \<lfloor>carrier_freq_hz default_instance * demo_duration_s default_instance /
                   real (length [0, 1, 1, 0::int])\<rfloor> *
               nat (oversampling default_instance))
            (length [0, 1, 1, 0::int] div nat 2) 40 = Some 1"
  unfolding default_last_writer_args by (simp_all add: numeral_2_eq_2)

lemma default_groups:
  "take (nat 2) (drop (1 * nat 2) (astype_bool [0, 1, 1, 0])) = [True, False]"
  by (simp add: astype_bool_def)

section \<open>The claims\<close>

text \<open>
  C1 (amended). Take an instance whose derived values follow its fields (sampling frequency
  \<open>carrier_freq_hz * oversampling\<close>, sampling period its inverse, sample points built from
  \<open>demo_duration_s\<close> and that period) and a non-empty bit sequence. The cycle count of every
  modulator is \<open>c = floor((carrier_freq_hz * demo_duration_s) / len(bits))\<close>: the divisor is
  the number of bits, not the number of symbols. The sample count per segment is \<open>c\<close> times
  the oversampling. Each modulator is its loop over the symbols, and pass \<open>k\<close> of the loop
  turns the waveform \<open>w\<close> left by the passes before it into \<open>w'\<close>, which differs from \<open>w\<close>
  exactly on the segment that starts at sample \<open>k * oversampling\<close> and has
  \<open>c * oversampling\<close> samples, where it holds the modulated values of symbol \<open>k\<close>; all of
  these samples exist in the waveform.
\<close>

theorem segment_timing:
  assumes fc: "0 < carrier_freq_hz self" and dur: "0 < demo_duration_s self"
    and os: "1 \<le> oversampling self"
    and sf: "sample_freq_hz self = carrier_freq_hz self * of_int (oversampling self)"
    and sp: "sample_period_s self = 1 / sample_freq_hz self"
    and pts: "sample_points_s self = arange 0 (demo_duration_s self) (sample_period_s self)"
    and ne: "data_vec \<noteq> []"
    and c: "c = \<lfloor>carrier_freq_hz self * demo_duration_s self / real (length data_vec)\<rfloor>"
  shows
    "periods_per_bit self data_vec = Inr (of_int c) \<and>
     mod_samples_per_bit self (of_int c) = c * oversampling self \<and>
     (\<forall>rows. reshape2 (astype_bool data_vec) B = Inr rows \<longrightarrow>
        get_ask_mod self data_vec B = ask_loop self (2 powi B) (c * oversampling self) rows \<and>
        get_psk_mod self data_vec B = psk_loop self (2 powi B) (c * oversampling self) rows \<and>
        get_fsk_mod self data_vec fspan B =
          fsk_loop self (carrier_freq_hz self - fspan / 2) fspan (2 powi B - 1)
            (c * oversampling self) rows \<and>
        (\<forall>k<length rows.
           card {i. i < length (sample_points_s self) \<and> k * nat (oversampling self) \<le> i \<and>
                 i < k * nat (oversampling self) + nat c * nat (oversampling self)} =
             nat c * nat (oversampling self) \<and>
           (\<exists>w w'. ask_loop self (2 powi B) (c * oversampling self) (take k rows) = Inr w \<and>
                    ask_loop self (2 powi B) (c * oversampling self) (take (Suc k) rows) = Inr w' \<and>
                    segment_of (sample_points_s self) (k * nat (oversampling self))
                      (nat c * nat (oversampling self))
                      (\<lambda>t. (real (bits_le (take 8 (rows ! k))) + 1) / 2 powi B *
                           sin (2 * pi * carrier_freq_hz self * t + start_phase_rad self))
                      w w') \<and>
           (\<exists>w w'. psk_loop self (2 powi B) (c * oversampling self) (take k rows) = Inr w \<and>
                    psk_loop self (2 powi B) (c * oversampling self) (take (Suc k) rows) = Inr w' \<and>
                    segment_of (sample_points_s self) (k * nat (oversampling self))
                      (nat c * nat (oversampling self))
                      (\<lambda>t. sin (2 * pi * carrier_freq_hz self * t +
                         (start_phase_rad self +
                          2 * pi * (real (bits_le (take 8 (rows ! k))) + 1) / 2 powi B)))
                      w w') \<and>
           (\<exists>w w'. fsk_loop self (carrier_freq_hz self - fspan / 2) fspan (2 powi B - 1)
                      (c * oversampling self) (take k rows) = Inr w \<and>
                    fsk_loop self (carrier_freq_hz self - fspan / 2) fspan (2 powi B - 1)
                      (c * oversampling self) (take (Suc k) rows) = Inr w' \<and>
                    segment_of (sample_points_s self) (k * nat (oversampling self))
                      (nat c * nat (oversampling self))
                      (\<lambda>t. sin (2 * pi *
                           fsk_freq_value_hz (carrier_freq_hz self - fspan / 2) fspan
                             (2 powi B - 1) (bits_le (take 8 (rows ! k))) * t +
                         start_phase_rad self))
                      w w'))) \<and>
     (\<forall>blocks. reshape3 (astype_bool data_vec) (B div 2) = Inr blocks \<longrightarrow>
        get_qam_mod self data_vec B = qam_loop self (2 ^ nat B) (c * oversampling self) blocks \<and>
        (\<forall>k<length blocks.
           card {i. i < length (sample_points_s self) \<and> k * nat (oversampling self) \<le> i \<and>
                 i < k * nat (oversampling self) + nat c * nat (oversampling self)} =
             nat c * nat (oversampling self) \<and>
           (\<exists>w w'. qam_loop self (2 ^ nat B) (c * oversampling self) (take k blocks) = Inr w \<and>
                    qam_loop self (2 ^ nat B) (c * oversampling self) (take (Suc k) blocks) =
                      Inr w' \<and>
                    segment_of (sample_points_s self) (k * nat (oversampling self))
                      (nat c * nat (oversampling self))
                      (\<lambda>t. of_real (of_int (fst (get_qam_modulation_mapping
                                  (int (bits_le (take 8 (concat (blocks ! k)))) + 1)
                                  (2 ^ nat B))) *
                                cos (2 * pi * carrier_freq_hz self * t)) +
                           \<i> * of_real (of_int (snd (get_qam_modulation_mapping
                                  (int (bits_le (take 8 (concat (blocks ! k)))) + 1)
                                  (2 ^ nat B))) *
                                sin (2 * pi * carrier_freq_hz self * t)))
                      w w')))"
proof -
  from os have os0: "0 \<le> oversampling self" by simp
  from fc dur have "0 \<le> carrier_freq_hz self * demo_duration_s self" by simp
  then have c0: "0 \<le> c" unfolding c by simp
  with os0 have m0: "0 \<le> c * oversampling self" by simp
  from c0 have nm: "nat (c * oversampling self) = nat c * nat (oversampling self)"
    by (rule nat_mult_distrib)
  from ne have p: "periods_per_bit self data_vec = Inr (of_int c)"
    by (simp add: periods_per_bit_def c)
  have "mod_samples_per_bit self (of_int c) = py_int (of_int (c * oversampling self))"
    by (simp add: mod_samples_per_bit_def)
  then have ms: "mod_samples_per_bit self (of_int c) = c * oversampling self"
    by (simp only: py_int_of_int)
  have N: "length (sample_points_s self) =
      nat \<lceil>demo_duration_s self / (1 / (carrier_freq_hz self * of_int (oversampling self)))\<rceil>"
    by (simp add: pts sp sf length_arange)
  from ne have n0: "0 < length data_vec" by simp
  have cd: "card {i. i < length (sample_points_s self) \<and> k * nat (oversampling self) \<le> i \<and>
                 i < k * nat (oversampling self) + nat c * nat (oversampling self)} =
             nat c * nat (oversampling self)" if "k < length data_vec" for k
    by (rule consistent_segment_fits [OF fc dur os n0 that c N])
  have r2: "get_ask_mod self data_vec B = ask_loop self (2 powi B) (c * oversampling self) rows \<and>
        get_psk_mod self data_vec B = psk_loop self (2 powi B) (c * oversampling self) rows \<and>
        get_fsk_mod self data_vec fspan B =
          fsk_loop self (carrier_freq_hz self - fspan / 2) fspan (2 powi B - 1)
            (c * oversampling self) rows \<and>
        (\<forall>k<length rows.
           card {i. i < length (sample_points_s self) \<and> k * nat (oversampling self) \<le> i \<and>
                 i < k * nat (oversampling self) + nat c * nat (oversampling self)} =
             nat c * nat (oversampling self) \<and>
           (\<exists>w w'. ask_loop self (2 powi B) (c * oversampling self) (take k rows) = Inr w \<and>
                    ask_loop self (2 powi B) (c * oversampling self) (take (Suc k) rows) = Inr w' \<and>
                    segment_of (sample_points_s self) (k * nat (oversampling self))
                      (nat c * nat (oversampling self))
                      (\<lambda>t. (real (bits_le (take 8 (rows ! k))) + 1) / 2 powi B *
                           sin (2 * pi * carrier_freq_hz self * t + start_phase_rad self))
                      w w') \<and>
           (\<exists>w w'. psk_loop self (2 powi B) (c * oversampling self) (take k rows) = Inr w \<and>
                    psk_loop self (2 powi B) (c * oversampling self) (take (Suc k) rows) = Inr w' \<and>
                    segment_of (sample_points_s self) (k * nat (oversampling self))
                      (nat c * nat (oversampling self))
                      (\<lambda>t. sin (2 * pi * carrier_freq_hz self * t +
                         (start_phase_rad self +
                          2 * pi * (real (bits_le (take 8 (rows ! k))) + 1) / 2 powi B)))
                      w w') \<and>
           (\<exists>w w'. fsk_loop self (carrier_freq_hz self - fspan / 2) fspan (2 powi B - 1)
                      (c * oversampling self) (take k rows) = Inr w \<and>
                    fsk_loop self (carrier_freq_hz self - fspan / 2) fspan (2 powi B - 1)
                      (c * oversampling self) (take (Suc k) rows) = Inr w' \<and>
                    segment_of (sample_points_s self) (k * nat (oversampling self))
                      (nat c * nat (oversampling self))
                      (\<lambda>t. sin (2 * pi *
                           fsk_freq_value_hz (carrier_freq_hz self - fspan / 2) fspan
                             (2 powi B - 1) (bits_le (take 8 (rows ! k))) * t +
                         start_phase_rad self))
                      w w'))"
    if rows: "reshape2 (astype_bool data_vec) B = Inr rows" for rows
  proof -
    have rne: "x \<noteq> []" if "x \<in> set rows" for x
      using rows that by (rule reshape2_rows_nonempty)
    have "length rows = length data_vec div nat B"
      using reshape2_rows(3) [OF rows] by (simp add: length_astype_bool)
    then have lr: "length rows \<le> length data_vec" by simp
    have a: "get_ask_mod self data_vec B = ask_loop self (2 powi B) (c * oversampling self) rows"
      using p ms rows by (simp add: get_ask_mod_def)
    have b: "get_psk_mod self data_vec B = psk_loop self (2 powi B) (c * oversampling self) rows"
      using p ms rows by (simp add: get_psk_mod_def)
    have f: "get_fsk_mod self data_vec fspan B =
          fsk_loop self (carrier_freq_hz self - fspan / 2) fspan (2 powi B - 1)
            (c * oversampling self) rows"
      using p ms rows by (simp add: get_fsk_mod_def)
    have pc: "card {i. i < length (sample_points_s self) \<and> k * nat (oversampling self) \<le> i \<and>
                 i < k * nat (oversampling self) + nat c * nat (oversampling self)} =
             nat c * nat (oversampling self)" if "k < length rows" for k
      using that lr by (intro cd) simp
    have pa: "(\<exists>w w'. ask_loop self (2 powi B) (c * oversampling self) (take k rows) = Inr w \<and>
                    ask_loop self (2 powi B) (c * oversampling self) (take (Suc k) rows) = Inr w' \<and>
                    segment_of (sample_points_s self) (k * nat (oversampling self))
                      (nat c * nat (oversampling self))
                      (\<lambda>t. (real (bits_le (take 8 (rows ! k))) + 1) / 2 powi B *
                           sin (2 * pi * carrier_freq_hz self * t + start_phase_rad self))
                      w w')" if k: "k < length rows" for k
      using ask_pass [OF os0 m0 rne k, of "2 powi B"] unfolding nm by simp
    have pp: "(\<exists>w w'. psk_loop self (2 powi B) (c * oversampling self) (take k rows) = Inr w \<and>
                    psk_loop self (2 powi B) (c * oversampling self) (take (Suc k) rows) = Inr w' \<and>
                    segment_of (sample_points_s self) (k * nat (oversampling self))
                      (nat c * nat (oversampling self))
                      (\<lambda>t. sin (2 * pi * carrier_freq_hz self * t +
                         (start_phase_rad self +
                          2 * pi * (real (bits_le (take 8 (rows ! k))) + 1) / 2 powi B)))
                      w w')" if k: "k < length rows" for k
      using psk_pass [OF os0 m0 rne k, of "2 powi B"] unfolding nm by simp
    have pf: "(\<exists>w w'. fsk_loop self (carrier_freq_hz self - fspan / 2) fspan (2 powi B - 1)
                      (c * oversampling self) (take k rows) = Inr w \<and>
                    fsk_loop self (carrier_freq_hz self - fspan / 2) fspan (2 powi B - 1)
                      (c * oversampling self) (take (Suc k) rows) = Inr w' \<and>
                    segment_of (sample_points_s self) (k * nat (oversampling self))
                      (nat c * nat (oversampling self))
                      (\<lambda>t. sin (2 * pi *
                           fsk_freq_value_hz (carrier_freq_hz self - fspan / 2) fspan
                             (2 powi B - 1) (bits_le (take 8 (rows ! k))) * t +
                         start_phase_rad self))
                      w w')" if k: "k < length rows" for k
      using fsk_pass [OF os0 m0 rne k, of "carrier_freq_hz self - fspan / 2" fspan
          "2 powi B - 1"] unfolding nm by simp
    from a b f pc pa pp pf show ?thesis by blast
  qed
  have r3: "get_qam_mod self data_vec B = qam_loop self (2 ^ nat B) (c * oversampling self) blocks \<and>
        (\<forall>k<length blocks.
           card {i. i < length (sample_points_s self) \<and> k * nat (oversampling self) \<le> i \<and>
                 i < k * nat (oversampling self) + nat c * nat (oversampling self)} =
             nat c * nat (oversampling self) \<and>
           (\<exists>w w'. qam_loop self (2 ^ nat B) (c * oversampling self) (take k blocks) = Inr w \<and>
                    qam_loop self (2 ^ nat B) (c * oversampling self) (take (Suc k) blocks) =
                      Inr w' \<and>
                    segment_of (sample_points_s self) (k * nat (oversampling self))
                      (nat c * nat (oversampling self))
                      (\<lambda>t. of_real (of_int (fst (get_qam_modulation_mapping
                                  (int (bits_le (take 8 (concat (blocks ! k)))) + 1)
                                  (2 ^ nat B))) *
                                cos (2 * pi * carrier_freq_hz self * t)) +
                           \<i> * of_real (of_int (snd (get_qam_modulation_mapping
                                  (int (bits_le (take 8 (concat (blocks ! k)))) + 1)
                                  (2 ^ nat B))) *
                                sin (2 * pi * carrier_freq_hz self * t)))
                      w w'))"
    if blocks: "reshape3 (astype_bool data_vec) (B div 2) = Inr blocks" for blocks
  proof -
    have bne: "concat x \<noteq> []" if "x \<in> set blocks" for x
      using blocks that by (rule reshape3_blocks_nonempty)
    have "length blocks = length data_vec div (2 * nat (B div 2))"
      using reshape3_rows(3) [OF blocks] by (simp add: length_astype_bool)
    then have lr: "length blocks \<le> length data_vec" by simp
    have q: "get_qam_mod self data_vec B =
        qam_loop self (2 ^ nat B) (c * oversampling self) blocks"
      using p ms blocks by (simp add: get_qam_mod_def)
    have pc: "card {i. i < length (sample_points_s self) \<and> k * nat (oversampling self) \<le> i \<and>
                 i < k * nat (oversampling self) + nat c * nat (oversampling self)} =
             nat c * nat (oversampling self)" if "k < length blocks" for k
      using that lr by (intro cd) simp
    have pq: "(\<exists>w w'. qam_loop self (2 ^ nat B) (c * oversampling self) (take k blocks) = Inr w \<and>
                    qam_loop self (2 ^ nat B) (c * oversampling self) (take (Suc k) blocks) =
                      Inr w' \<and>
                    segment_of (sample_points_s self) (k * nat (oversampling self))
                      (nat c * nat (oversampling self))
                      (\<lambda>t. of_real (of_int (fst (get_qam_modulation_mapping
                                  (int (bits_le (take 8 (concat (blocks ! k)))) + 1)
                                  (2 ^ nat B))) *
                                cos (2 * pi * carrier_freq_hz self * t)) +
                           \<i> * of_real (of_int (snd (get_qam_modulation_mapping
                                  (int (bits_le (take 8 (concat (blocks ! k)))) + 1)
                                  (2 ^ nat B))) *
                                sin (2 * pi * carrier_freq_hz self * t)))
                      w w')" if k: "k < length blocks" for k
    proof -
      have "\<And>x. x \<in> set blocks \<Longrightarrow> concat x \<noteq> []" by (rule bne)
      from qam_pass [OF os0 m0 this k, of "2 ^ nat B"] show ?thesis
        unfolding nm .
    qed
    from q pc pq show ?thesis by blast
  qed
  from p ms r2 r3 show ?thesis by blast
qed

theorem segment_timing_witness:
  "init 1000000 (8 / 1000000) = Inr default_instance \<and>
   0 < carrier_freq_hz default_instance \<and> 0 < demo_duration_s default_instance \<and>
   1 \<le> oversampling default_instance \<and>
   sample_freq_hz default_instance =
     carrier_freq_hz default_instance * of_int (oversampling default_instance) \<and>
   sample_period_s default_instance = 1 / sample_freq_hz default_instance \<and>
   sample_points_s default_instance =
     arange 0 (demo_duration_s default_instance) (sample_period_s default_instance) \<and>
   (2::int) = \<lfloor>carrier_freq_hz default_instance * demo_duration_s default_instance /
                 real (length [0, 1, 1, 0::int])\<rfloor> \<and>
   reshape2 (astype_bool [0, 1, 1, 0]) 2 = Inr [[False, True], [True, False]] \<and>
   reshape3 (astype_bool [0, 1, 1, 0]) (2 div 2) = Inr [[[False], [True]], [[True], [False]]] \<and>
   periods_per_bit default_instance [0, 1, 1, 0::int] = Inr (of_int 2) \<and>
   mod_samples_per_bit default_instance (of_int 2) = 2 * oversampling default_instance \<and>
   get_ask_mod default_instance [0, 1, 1, 0] 2 =
     ask_loop default_instance (2 powi 2) (2 * oversampling default_instance)
       [[False, True], [True, False]] \<and>
   card {i. i < length (sample_points_s default_instance) \<and>
            1 * nat (oversampling default_instance) \<le> i \<and>
            i < 1 * nat (oversampling default_instance) +
                nat 2 * nat (oversampling default_instance)} =
     nat 2 * nat (oversampling default_instance) \<and>
   (\<exists>w w'. ask_loop default_instance (2 powi 2) (2 * oversampling default_instance)
              (take 1 [[False, True], [True, False]]) = Inr w \<and>
            ask_loop default_instance (2 powi 2) (2 * oversampling default_instance)
              (take (Suc 1) [[False, True], [True, False]]) = Inr w' \<and>
            segment_of (sample_points_s default_instance)
              (1 * nat (oversampling default_instance))
              (nat 2 * nat (oversampling default_instance))
              (\<lambda>t. (real (bits_le (take 8 ([[False, True], [True, False]] ! 1))) + 1) / 2 powi 2 *
                   sin (2 * pi * carrier_freq_hz default_instance * t +
                     start_phase_rad default_instance))
              w w') \<and>
   get_qam_mod default_instance [0, 1, 1, 0] 2 =
     qam_loop default_instance (2 ^ nat 2) (2 * oversampling default_instance)
       [[[False], [True]], [[True], [False]]]"
proof -
  have ne: "[0, 1, 1, 0::int] \<noteq> []" by simp
  have c: "(2::int) = \<lfloor>carrier_freq_hz default_instance * demo_duration_s default_instance /
                 real (length [0, 1, 1, 0::int])\<rfloor>"
    by (simp add: default_fields)
  note t = segment_timing [OF default_consistent ne c, of 2 500000]
  note t1 = t [THEN conjunct1]
  note t2 = t [THEN conjunct2, THEN conjunct1]
  note t3 = t [THEN conjunct2, THEN conjunct2, THEN conjunct1, THEN spec, THEN mp,
      OF reshape2_demo]
  note t4 = t [THEN conjunct2, THEN conjunct2, THEN conjunct2, THEN spec, THEN mp,
      OF reshape3_demo4]
  note a = t3 [THEN conjunct1]
  have k: "1 < length [[False, True], [True, False]]" by simp
  note per = t3 [THEN conjunct2, THEN conjunct2, THEN conjunct2, THEN spec, THEN mp, OF k]
  note cd = per [THEN conjunct1]
  note pa = per [THEN conjunct2, THEN conjunct1]
  note q = t4 [THEN conjunct1]
  from init_default default_consistent c reshape2_demo reshape3_demo4 t1 t2 a cd pa q
  show ?thesis by (intro conjI)
qed

text \<open>
  C1 as stated fails: for \<open>ask([0,1,1,0], B=2)\<close> on the default instance there are
  two symbols, so the claimed count is \<open>floor(8 / 2) = 4\<close>, and the code computes
  \<open>8 // 4 = 2\<close>.
\<close>

theorem cycle_count_counts_bits_not_symbols:
  "init 1000000 (8 / 1000000) = Inr default_instance \<and>
   int (length [0, 1, 1, 0::int]) mod 2 = 0 \<and>
   periods_per_bit default_instance [0, 1, 1, 0::int] = Inr 2 \<and>
   \<lfloor>carrier_freq_hz default_instance * demo_duration_s default_instance /
      real (length [0, 1, 1, 0::int] div 2)\<rfloor> = 4 \<and>
   (\<exists>w. get_ask_mod default_instance [0, 1, 1, 0] 2 = Inr w)"
proof -
  have p: "periods_per_bit default_instance [0, 1, 1, 0::int] = Inr 2"
    by (simp add: periods_per_bit_def default_fields)
  have q: "\<lfloor>carrier_freq_hz default_instance * demo_duration_s default_instance /
      real (length [0, 1, 1, 0::int] div 2)\<rfloor> = 4"
    by (simp add: default_fields)
  have "\<exists>w. get_ask_mod default_instance [0, 1, 1, 0] 2 = Inr w \<and>
      length w = length (sample_points_s default_instance)"
    by (rule get_ask_mod_returns) simp_all
  with p q init_default show ?thesis by auto
qed

text \<open>
  C2. The constructor does not keep the derived values in step with the instance's
  \<open>carrier_freq_hz\<close> field: it stores the literal \<open>1e6\<close> in the field and computes the
  sampling frequency from its argument. Constructed with a carrier of 2 MHz, the instance
  holds \<open>carrier_freq_hz = 1e6\<close> and a sampling frequency of 64 MHz, which is not
  \<open>carrier_freq_hz * oversampling\<close>.
\<close>

theorem constructor_ignores_carrier_argument:
  "\<exists>self. init 2000000 (8 / 1000000) = Inr self \<and>
      carrier_freq_hz self = 1000000 \<and> sample_freq_hz self = 64000000 \<and>
      sample_freq_hz self \<noteq> carrier_freq_hz self * of_int (oversampling self)"
  by (simp add: init_def)

lemma reshape3_demo: "reshape3 (astype_bool [1, 1]) (2 div 2) = Inr [[[True], [True]]]"
  by (simp add: reshape3_def astype_bool_def)

text \<open>
  C3. The constellation fallback is reachable on valid QAM input: with \<open>B = 2\<close> the symbol
  \<open>1, 1\<close> packs to 3, the value looked up is 4, which is no key of the 4-point table, so the
  lookup returns \<open>(0, 0)\<close> and the whole waveform of \<open>qam([1, 1], 2)\<close> stays zero.
\<close>

theorem qam_all_ones_symbol_falls_back:
  "qam_modulated_value [[True], [True]] = Inr 4 \<and>
   get_qam_modulation_mapping 4 (2 ^ nat 2) = (0, 0) \<and>
   get_qam_mod default_instance [1, 1] 2 = Inr (replicate 256 0)"
proof -
  have v: "qam_modulated_value [[True], [True]] = Inr 4"
    by (simp add: qam_modulated_value_eq)
  have m: "get_qam_modulation_mapping 4 (2 ^ nat 2) = (0, 0)"
    by (simp add: get_qam_modulation_mapping_def)
  have p: "periods_per_bit default_instance [1, 1::int] = Inr 4"
    by (simp add: periods_per_bit_def default_instance_def)
  have ms: "mod_samples_per_bit default_instance 4 = 128"
    by (simp add: mod_samples_per_bit_def default_instance_def py_int_def)
  have os: "oversampling default_instance = 32"
    by (simp add: default_instance_def)
  let ?pts = "sample_points_s default_instance"
  let ?z = "zeros_like ?pts :: complex list"
  have lz: "length ?z = 256" by (simp add: zeros_like_def length_default)
  have seg: "segment_of ?pts (nat 0) (nat 128) (\<lambda>t. 0::complex) ?z
      (slice_assign ?z 0 (0 + 128) (map (\<lambda>t. 0) (slice ?pts 0 (0 + 128))))"
    by (rule segment_of_write) (simp_all add: zeros_like_def)
  have "slice_assign ?z 0 128 (map (\<lambda>t. 0) (slice ?pts 0 128)) = replicate 256 (0::complex)"
  proof (rule nth_equalityI)
    show "length (slice_assign ?z 0 128 (map (\<lambda>t. 0) (slice ?pts 0 128))) =
        length (replicate 256 (0::complex))"
      using lz by simp
  next
    fix i assume "i < length (slice_assign ?z 0 128 (map (\<lambda>t. 0) (slice ?pts 0 128)))"
    then have i: "i < 256" using lz by simp
    then have "?z ! i = 0" by (simp add: zeros_like_def length_default)
    with seg i lz show "slice_assign ?z 0 128 (map (\<lambda>t. 0) (slice ?pts 0 128)) ! i =
        replicate 256 (0::complex) ! i"
      by (simp add: segment_of_def)
  qed
  then have "get_qam_mod default_instance [1, 1] 2 = Inr (replicate 256 0)"
    using p ms os reshape3_demo v
    by (simp add: get_qam_mod_def qam_loop_def qam_segment_def get_qam_modulation_mapping_def)
  with v m show ?thesis by blast
qed




text \<open>
  C5. A valid FSK call (\<open>1 \<le> B \<le> 8\<close>, a non-empty bit sequence whose length is a multiple
  of \<open>B\<close>) returns a waveform in which every sample covered by a symbol holds
  \<open>sin(2 pi f t + phase)\<close> with \<open>f = (carrier_freq_hz - span/2) + v span / (2^B - 1)\<close>, where
  \<open>v \<le> 2^B - 1\<close> is the little-endian value of the bit group of the last symbol that covers
  the sample; samples no symbol covers are zero. For \<open>v = 0\<close> the frequency is
  \<open>carrier_freq_hz - span/2\<close> and for \<open>v = 2^B - 1\<close> it is \<open>carrier_freq_hz + span/2\<close>, in
  exact arithmetic.
\<close>

theorem fsk_frequency:
  assumes os: "0 \<le> oversampling self"
    and P: "0 \<le> carrier_freq_hz self * demo_duration_s self"
    and ne: "data_vec \<noteq> []" and B1: "1 \<le> B" and B8: "B \<le> 8"
    and dv: "int (length data_vec) mod B = 0"
  shows "\<exists>w. get_fsk_mod self data_vec fspan B = Inr w \<and>
      length w = length (sample_points_s self) \<and>
      (\<forall>i<length w.
         (last_writer (nat (oversampling self))
            (nat \<lfloor>carrier_freq_hz self * demo_duration_s self / real (length data_vec)\<rfloor> *
               nat (oversampling self))
            (length data_vec div nat B) i = None \<longrightarrow> w ! i = 0) \<and>
         (\<forall>k. last_writer (nat (oversampling self))
            (nat \<lfloor>carrier_freq_hz self * demo_duration_s self / real (length data_vec)\<rfloor> *
               nat (oversampling self))
            (length data_vec div nat B) i = Some k \<longrightarrow>
            bits_le (take (nat B) (drop (k * nat B) (astype_bool data_vec))) \<le> 2 ^ nat B - 1 \<and>
            w ! i = sin (2 * pi *
                (carrier_freq_hz self - fspan / 2 +
                 real (bits_le (take (nat B) (drop (k * nat B) (astype_bool data_vec)))) * fspan /
                   (2 ^ nat B - 1)) *
                (sample_points_s self ! i) + start_phase_rad self) \<and>
            (bits_le (take (nat B) (drop (k * nat B) (astype_bool data_vec))) = 0 \<longrightarrow>
               w ! i = sin (2 * pi * (carrier_freq_hz self - fspan / 2) *
                   (sample_points_s self ! i) + start_phase_rad self)) \<and>
            (bits_le (take (nat B) (drop (k * nat B) (astype_bool data_vec))) = 2 ^ nat B - 1 \<longrightarrow>
               w ! i = sin (2 * pi * (carrier_freq_hz self + fspan / 2) *
                   (sample_points_s self ! i) + start_phase_rad self))))"
proof -
  let ?c = "\<lfloor>carrier_freq_hz self * demo_duration_s self / real (length data_vec)\<rfloor>"
  let ?pts = "sample_points_s self"
  let ?fmin = "carrier_freq_hz self - fspan / 2"
  let ?g = "\<lambda>k. take (nat B) (drop (k * nat B) (astype_bool data_vec))"
  let ?L = "nat ?c * nat (oversampling self)"
  from call_setup [OF os P ne B1 dv] obtain rows where
    p: "periods_per_bit self data_vec = Inr (of_int ?c)"
    and ms: "mod_samples_per_bit self (of_int ?c) = ?c * oversampling self"
    and m0: "0 \<le> ?c * oversampling self"
    and nm: "nat (?c * oversampling self) = ?L"
    and rows: "reshape2 (astype_bool data_vec) B = Inr rows"
    and l: "length rows = length data_vec div nat B"
    and rne: "\<forall>x\<in>set rows. x \<noteq> []"
    and nth: "\<forall>k<length rows. rows ! k = ?g k \<and> length (rows ! k) = nat B"
    by blast
  have call: "get_fsk_mod self data_vec fspan B =
      fsk_loop self ?fmin fspan (2 powi B - 1) (?c * oversampling self) rows"
    using p ms rows by (simp add: get_fsk_mod_def)
  have "\<And>x. x \<in> set rows \<Longrightarrow> x \<noteq> []" using rne by blast
  from fsk_loop_result [OF os m0 this, where fmin = ?fmin and fspan = fspan
      and d = "2 powi B - 1"]
  obtain w where loop: "fsk_loop self ?fmin fspan (2 powi B - 1) (?c * oversampling self) rows =
        Inr w"
    and lw: "length w = length ?pts"
    and val: "\<And>i. i < length ?pts \<Longrightarrow>
        w ! i = (case last_writer (nat (oversampling self)) ?L (length rows) i of
                    None \<Rightarrow> 0
                  | Some k \<Rightarrow>
                      sin (2 * pi *
                          fsk_freq_value_hz ?fmin fspan (2 powi B - 1) (bits_le (take 8 (rows ! k))) *
                          (?pts ! i) + start_phase_rad self))"
    unfolding nm by blast
  from B1 have pw: "(2::real) powi B = 2 ^ nat B" by (simp add: powi_nat)
  from B1 have "(2::real) ^ 1 \<le> 2 ^ nat B"
    by (intro power_increasing) auto
  then have nz: "(2::real) ^ nat B - 1 \<noteq> 0" by simp
  have "(1::nat) \<le> 2 ^ nat B" by simp
  then have top: "real (2 ^ nat B - 1) = 2 ^ nat B - 1"
    by (simp add: of_nat_diff)
  have none: "w ! i = 0"
    if "i < length w"
      and "last_writer (nat (oversampling self)) ?L (length data_vec div nat B) i = None" for i
    using val [of i] that lw l by simp
  have some: "bits_le (?g k) \<le> 2 ^ nat B - 1 \<and>
      w ! i = sin (2 * pi * (?fmin + real (bits_le (?g k)) * fspan / (2 ^ nat B - 1)) *
                (?pts ! i) + start_phase_rad self) \<and>
      (bits_le (?g k) = 0 \<longrightarrow>
         w ! i = sin (2 * pi * ?fmin * (?pts ! i) + start_phase_rad self)) \<and>
      (bits_le (?g k) = 2 ^ nat B - 1 \<longrightarrow>
         w ! i = sin (2 * pi * (carrier_freq_hz self + fspan / 2) * (?pts ! i) +
                   start_phase_rad self))"
    if i: "i < length w"
      and lwk: "last_writer (nat (oversampling self)) ?L (length data_vec div nat B) i = Some k"
    for i k
  proof -
    from lwk have k: "k < length rows" unfolding l [symmetric] by (rule last_writer_less)
    with nth have rk: "rows ! k = ?g k" and lk: "length (rows ! k) = nat B" by blast+
    from lk B8 have t8: "take 8 (rows ! k) = rows ! k" by simp
    from B8 have mn: "min 8 (nat B) = nat B" by simp
    from bits_le_less [of "rows ! k"] lk have "bits_le (?g k) < 2 ^ nat B"
      by (simp add: rk)
    then have bound: "bits_le (?g k) \<le> 2 ^ nat B - 1" by simp
    have w: "w ! i = sin (2 * pi * (?fmin + real (bits_le (?g k)) * fspan / (2 ^ nat B - 1)) *
                (?pts ! i) + start_phase_rad self)"
      using val [of i] i lw lwk l by (simp add: rk mn fsk_freq_value_hz_def pw)
    have lo: "w ! i = sin (2 * pi * ?fmin * (?pts ! i) + start_phase_rad self)"
      if "bits_le (?g k) = 0"
      using w that by simp
    have hi: "w ! i = sin (2 * pi * (carrier_freq_hz self + fspan / 2) * (?pts ! i) +
                   start_phase_rad self)"
      if v: "bits_le (?g k) = 2 ^ nat B - 1"
    proof -
      have "?fmin + real (bits_le (?g k)) * fspan / (2 ^ nat B - 1) =
          carrier_freq_hz self + fspan / 2"
        using nz by (simp add: v top)
      with w show ?thesis by simp
    qed
    from bound w lo hi show ?thesis by blast
  qed
  from call loop have g: "get_fsk_mod self data_vec fspan B = Inr w" by simp
  from g lw none some show ?thesis by blast
qed

theorem fsk_frequency_witness:
  "0 \<le> oversampling default_instance \<and>
   0 \<le> carrier_freq_hz default_instance * demo_duration_s default_instance \<and>
   int (length [0, 1, 1, 0::int]) mod 2 = 0 \<and>
   (\<exists>w. get_fsk_mod default_instance [0, 1, 1, 0] 500000 2 = Inr w \<and> length w = 256 \<and>
        w ! 100 = 0 \<and>
        w ! 40 = sin (2 * pi *
                (carrier_freq_hz default_instance - 500000 / 2 +
                 real (bits_le [True, False]) * 500000 / (2 ^ nat 2 - 1)) *
                (sample_points_s default_instance ! 40) + start_phase_rad default_instance))"
proof -
  from fsk_frequency [OF default_call_facts, of 500000]
  obtain w where w: "get_fsk_mod default_instance [0, 1, 1, 0::int] 500000 2 = Inr w \<and>
      length w = length (sample_points_s default_instance) \<and>
      (\<forall>i<length w.
         (last_writer (nat (oversampling default_instance))
            (nat \<lfloor>carrier_freq_hz default_instance * demo_duration_s default_instance / real (length [0, 1, 1, 0::int])\<rfloor> *
               nat (oversampling default_instance))
            (length [0, 1, 1, 0::int] div nat 2) i = None \<longrightarrow> w ! i = 0) \<and>
         (\<forall>k. last_writer (nat (oversampling default_instance))
            (nat \<lfloor>carrier_freq_hz default_instance * demo_duration_s default_instance / real (length [0, 1, 1, 0::int])\<rfloor> *
               nat (oversampling default_instance))
            (length [0, 1, 1, 0::int] div nat 2) i = Some k \<longrightarrow>
            bits_le (take (nat 2) (drop (k * nat 2) (astype_bool [0, 1, 1, 0::int]))) \<le> 2 ^ nat 2 - 1 \<and>
            w ! i = sin (2 * pi *
                (carrier_freq_hz default_instance - 500000 / 2 +
                 real (bits_le (take (nat 2) (drop (k * nat 2) (astype_bool [0, 1, 1, 0::int])))) * 500000 /
                   (2 ^ nat 2 - 1)) *
                (sample_points_s default_instance ! i) + start_phase_rad default_instance) \<and>
            (bits_le (take (nat 2) (drop (k * nat 2) (astype_bool [0, 1, 1, 0::int]))) = 0 \<longrightarrow>
               w ! i = sin (2 * pi * (carrier_freq_hz default_instance - 500000 / 2) *
                   (sample_points_s default_instance ! i) + start_phase_rad default_instance)) \<and>
            (bits_le (take (nat 2) (drop (k * nat 2) (astype_bool [0, 1, 1, 0::int]))) = 2 ^ nat 2 - 1 \<longrightarrow>
               w ! i = sin (2 * pi * (carrier_freq_hz default_instance + 500000 / 2) *
                   (sample_points_s default_instance ! i) + start_phase_rad default_instance))))" ..
  note g = w [THEN conjunct1]
  note lw = w [THEN conjunct2, THEN conjunct1]
  note val = w [THEN conjunct2, THEN conjunct2]
  from lw have l: "length w = 256" by (simp add: length_default)
  have i100: "100 < length w" and i40: "40 < length w" using l by simp_all
  from val [THEN spec, THEN mp, OF i100, THEN conjunct1, THEN mp, OF default_last_writer(1)]
  have z: "w ! 100 = 0" .
  from val [THEN spec, THEN mp, OF i40, THEN conjunct2, THEN spec, THEN mp,
      OF default_last_writer(2), THEN conjunct2, THEN conjunct1]
  have v: "w ! 40 = sin (2 * pi *
                (carrier_freq_hz default_instance - 500000 / 2 +
                 real (bits_le [True, False]) * 500000 / (2 ^ nat 2 - 1)) *
                (sample_points_s default_instance ! 40) + start_phase_rad default_instance)"
    by (simp only: default_groups)
  from g l z v have "\<exists>w. get_fsk_mod default_instance [0, 1, 1, 0] 500000 2 = Inr w \<and>
        length w = 256 \<and> w ! 100 = 0 \<and>
        w ! 40 = sin (2 * pi *
                (carrier_freq_hz default_instance - 500000 / 2 +
                 real (bits_le [True, False]) * 500000 / (2 ^ nat 2 - 1)) *
                (sample_points_s default_instance ! 40) + start_phase_rad default_instance)"
    by (intro exI [of _ w] conjI)
  with default_call_facts(1,2,6) show ?thesis by (intro conjI)
qed



text \<open>
  C7 (amended). For an instance built by the constructor from a carrier frequency and a
  duration \<open>dur\<close>, and a non-empty bit sequence whose length is a multiple of \<open>B \<ge> 1\<close>
  (\<open>B\<close> even for QAM), the carrier and the four modulators return waveforms of one length
  \<open>N = ceil(dur / sample_period_s)\<close>, which depends on the instance only. \<open>dur\<close> is the
  duration passed to the constructor, from which the sample points are built.
\<close>

theorem waveform_lengths:
  assumes init: "init fc dur = Inr self" and ne: "data_vec \<noteq> []"
    and B0: "0 < B" and dv: "int (length data_vec) mod B = 0"
  shows
    "length (get_carrier self) = nat \<lceil>dur / sample_period_s self\<rceil> \<and>
     (\<exists>w. get_ask_mod self data_vec B = Inr w \<and> length w = nat \<lceil>dur / sample_period_s self\<rceil>) \<and>
     (\<exists>w. get_psk_mod self data_vec B = Inr w \<and> length w = nat \<lceil>dur / sample_period_s self\<rceil>) \<and>
     (\<exists>w. get_fsk_mod self data_vec fspan B = Inr w \<and>
          length w = nat \<lceil>dur / sample_period_s self\<rceil>) \<and>
     (even B \<longrightarrow>
       (\<exists>w. get_qam_mod self data_vec B = Inr w \<and> length w = nat \<lceil>dur / sample_period_s self\<rceil>))"
proof -
  let ?N = "nat \<lceil>dur / sample_period_s self\<rceil>"
  have N: "length (sample_points_s self) = ?N"
    by (simp add: init_fields(6,7) [OF init] length_arange)
  from ne obtain p where p: "periods_per_bit self data_vec = Inr p"
    using periods_ok by blast
  from B0 dv obtain rows where rows: "reshape2 (astype_bool data_vec) B = Inr rows"
    using reshape2_ok [of B "astype_bool data_vec"] by (auto simp add: astype_bool_def)
  have rne: "x \<noteq> []" if "x \<in> set rows" for x
    using rows that by (rule reshape2_rows_nonempty)
  have c: "length (get_carrier self) = ?N"
    using N by (simp add: get_carrier_def)
  have "\<exists>w. ask_loop self (2 powi B) (mod_samples_per_bit self p) rows = Inr w \<and>
      length w = length (sample_points_s self)"
    by (rule ask_loop_length) (rule rne)
  then have a: "\<exists>w. get_ask_mod self data_vec B = Inr w \<and> length w = ?N"
    using p rows N by (simp add: get_ask_mod_def)
  have "\<exists>w. psk_loop self (2 powi B) (mod_samples_per_bit self p) rows = Inr w \<and>
      length w = length (sample_points_s self)"
    by (rule psk_loop_length) (rule rne)
  then have ps: "\<exists>w. get_psk_mod self data_vec B = Inr w \<and> length w = ?N"
    using p rows N by (simp add: get_psk_mod_def)
  have "\<exists>w. fsk_loop self (carrier_freq_hz self - fspan / 2) fspan (2 powi B - 1)
        (mod_samples_per_bit self p) rows = Inr w \<and>
      length w = length (sample_points_s self)"
    by (rule fsk_loop_length) (rule rne)
  then have f: "\<exists>w. get_fsk_mod self data_vec fspan B = Inr w \<and> length w = ?N"
    using p rows N by (simp add: get_fsk_mod_def)
  have q: "\<exists>w. get_qam_mod self data_vec B = Inr w \<and> length w = ?N" if ev: "even B"
  proof -
    from ev B0 have h: "0 < B div 2" and B2: "2 * (B div 2) = B" by presburger+
    with dv obtain blocks where blocks: "reshape3 (astype_bool data_vec) (B div 2) = Inr blocks"
      using reshape3_ok [of "B div 2" "astype_bool data_vec"] by (auto simp add: astype_bool_def)
    have bne: "concat x \<noteq> []" if "x \<in> set blocks" for x
      using blocks that by (rule reshape3_blocks_nonempty)
    have "\<exists>w. qam_loop self (2 ^ nat B) (mod_samples_per_bit self p) blocks = Inr w \<and>
        length w = length (sample_points_s self)"
      by (rule qam_loop_length) (rule bne)
    then show ?thesis
      using p blocks N by (simp add: get_qam_mod_def)
  qed
  from c a ps f q show ?thesis by blast
qed

theorem waveform_lengths_witness:
  "init 1000000 (8 / 1000000) = Inr default_instance \<and>
   int (length [0, 1, 1, 0::int]) mod 2 = 0 \<and>
   length (get_carrier default_instance) = 256 \<and>
   (\<exists>w. get_ask_mod default_instance [0, 1, 1, 0] 2 = Inr w \<and> length w = 256) \<and>
   (\<exists>w. get_psk_mod default_instance [0, 1, 1, 0] 2 = Inr w \<and> length w = 256) \<and>
   (\<exists>w. get_fsk_mod default_instance [0, 1, 1, 0] 500000 2 = Inr w \<and> length w = 256) \<and>
   (\<exists>w. get_qam_mod default_instance [0, 1, 1, 0] 2 = Inr w \<and> length w = 256)"
proof -
  have n: "nat \<lceil>8 / 1000000 / sample_period_s default_instance\<rceil> = 256"
    by (simp add: default_instance_def)
  have ne: "[0, 1, 1, 0::int] \<noteq> []" by simp
  have b: "(0::int) < 2" by simp
  have d: "int (length [0, 1, 1, 0::int]) mod 2 = 0" by simp
  have e: "even (2::int)" by simp
  from waveform_lengths [OF init_default ne b d, of 500000]
  show ?thesis using init_default d e unfolding n by blast
qed

text \<open>
  C7 as stated fails: the empty bit sequence satisfies \<open>len(bits) % B == 0\<close> and
  the call returns no waveform.
\<close>

theorem empty_bits_return_no_waveform:
  "init 1000000 (8 / 1000000) = Inr default_instance \<and>
   int (length ([]::int list)) mod 1 = 0 \<and>
   get_ask_mod default_instance [] 1 = Inl ZeroDivisionError \<and>
   \<not> (\<exists>w. get_ask_mod default_instance [] 1 = Inr w \<and>
          length w = nat \<lceil>8 / 1000000 / sample_period_s default_instance\<rceil>)"
  using init_default by (simp add: get_ask_mod_def periods_per_bit_def)

text \<open>
  C8. A bit sequence whose length is not a multiple of the chunk size (\<open>B\<close> for ASK, PSK and
  FSK; the symbol width \<open>2 * (B // 2)\<close> for QAM) makes the call fail with the ValueError of
  \<open>reshape\<close>, and no waveform is returned. The length is then not zero, so the floor division
  before the grouping step does not raise. \<open>ask([0,1,1], B=2)\<close> is the witness.
\<close>

theorem ragged_bits_fail_at_reshape:
  "(int (length data_vec) mod B \<noteq> 0 \<longrightarrow>
      get_ask_mod self data_vec B = Inl ValueError \<and>
      get_psk_mod self data_vec B = Inl ValueError \<and>
      get_fsk_mod self data_vec frequency_span B = Inl ValueError) \<and>
   (int (length data_vec) mod (2 * (B div 2)) \<noteq> 0 \<longrightarrow>
      get_qam_mod self data_vec B = Inl ValueError)"
  by (auto simp add: get_ask_mod_def get_psk_mod_def get_fsk_mod_def get_qam_mod_def
      periods_per_bit_def reshape2_def reshape3_def astype_bool_def)

theorem ragged_bits_fail_at_reshape_witness:
  "get_ask_mod default_instance [0, 1, 1] 2 = Inl ValueError \<and>
   get_psk_mod default_instance [0, 1, 1] 2 = Inl ValueError \<and>
   get_fsk_mod default_instance [0, 1, 1] 500000 2 = Inl ValueError \<and>
   get_qam_mod default_instance [0, 1, 1] 2 = Inl ValueError"
  using ragged_bits_fail_at_reshape [of "[0, 1, 1]" 2 default_instance 500000]
  by simp

lemma inj_on_of_table:
  "map f xs = ys \<Longrightarrow> distinct ys \<Longrightarrow> A = set xs \<Longrightarrow> inj_on f A"
  by (auto simp add: distinct_map)

text \<open>
  C9. For the constellation sizes 4, 8 and 16 the lookup, read over its keys in order, is the
  table of the specification, and on those keys it is injective: distinct symbol values have
  distinct \<open>(I, Q)\<close> pairs, so a pair of the table determines its key.
\<close>

theorem constellation_tables:
  "map (\<lambda>v. get_qam_modulation_mapping v 4) [0, 1, 2, 3] =
     [(1, 1), (1, -1), (-1, 1), (-1, -1)] \<and>
   map (\<lambda>v. get_qam_modulation_mapping v 8) [0, 1, 2, 3, 4, 5, 6, 7] =
     [(3, 0), (1, 1), (-1, 1), (0, 3), (1, -1), (0, -3), (-3, 0), (-1, -1)] \<and>
   map (\<lambda>v. get_qam_modulation_mapping v 16)
       [0, 1, 2, 3, 4, 5, 6, 7, 8, 9, 10, 11, 12, 13, 14, 15] =
     [(1, 1), (3, 1), (1, 3), (3, 3), (1, -1), (3, -1), (1, -3), (3, -3),
      (-1, 1), (-3, 1), (-1, 3), (-3, 3), (-1, -1), (-3, -1), (-1, -3), (-3, -3)] \<and>
   inj_on (\<lambda>v. get_qam_modulation_mapping v 4) {0..<4} \<and>
   inj_on (\<lambda>v. get_qam_modulation_mapping v 8) {0..<8} \<and>
   inj_on (\<lambda>v. get_qam_modulation_mapping v 16) {0..<16}"
proof -
  have t4: "map (\<lambda>v. get_qam_modulation_mapping v 4) [0, 1, 2, 3] =
      [(1, 1), (1, -1), (-1, 1), (-1, -1)]"
    by (simp add: get_qam_modulation_mapping_def)
  have t8: "map (\<lambda>v. get_qam_modulation_mapping v 8) [0, 1, 2, 3, 4, 5, 6, 7] =
      [(3, 0), (1, 1), (-1, 1), (0, 3), (1, -1), (0, -3), (-3, 0), (-1, -1)]"
    by (simp add: get_qam_modulation_mapping_def)
  have t16: "map (\<lambda>v. get_qam_modulation_mapping v 16)
        [0, 1, 2, 3, 4, 5, 6, 7, 8, 9, 10, 11, 12, 13, 14, 15] =
      [(1, 1), (3, 1), (1, 3), (3, 3), (1, -1), (3, -1), (1, -3), (3, -3),
       (-1, 1), (-3, 1), (-1, 3), (-3, 3), (-1, -1), (-3, -1), (-1, -3), (-3, -3)]"
    by (simp add: get_qam_modulation_mapping_def)
  have s4: "{0..<4::int} = set [0, 1, 2, 3]" by auto
  have s8: "{0..<8::int} = set [0, 1, 2, 3, 4, 5, 6, 7]" by auto
  have s16: "{0..<16::int} = set [0, 1, 2, 3, 4, 5, 6, 7, 8, 9, 10, 11, 12, 13, 14, 15]"
    by (auto, presburger)
  have i4: "inj_on (\<lambda>v. get_qam_modulation_mapping v 4) {0..<4}"
    by (rule inj_on_of_table [OF t4 _ s4]) simp
  have i8: "inj_on (\<lambda>v. get_qam_modulation_mapping v 8) {0..<8}"
    by (rule inj_on_of_table [OF t8 _ s8]) simp
  have i16: "inj_on (\<lambda>v. get_qam_modulation_mapping v 16) {0..<16}"
    by (rule inj_on_of_table [OF t16 _ s16]) simp
  from t4 t8 t16 i4 i8 i16 show ?thesis by blast
qed

text \<open>
  C10. With an empty bit sequence each of the four modulators raises ZeroDivisionError in its
  first statement, the floor division by \<open>len(data_vec)\<close>, whatever the instance and
  the symbol size; no waveform is returned.
\<close>

theorem empty_bits_raise_zero_division:
  "get_ask_mod self [] B = Inl ZeroDivisionError \<and>
   get_psk_mod self [] B = Inl ZeroDivisionError \<and>
   get_fsk_mod self [] frequency_span B = Inl ZeroDivisionError \<and>
   get_qam_mod self [] B = Inl ZeroDivisionError"
  by (simp add: get_ask_mod_def get_psk_mod_def get_fsk_mod_def get_qam_mod_def
      periods_per_bit_def)

end
